theory Spec2Isabelle
  imports Complex_Main
begin

section \<open>Numbers, points and landmark frames\<close>

text \<open>
  JavaScript numbers are modelled by \<^typ>\<open>real\<close>: finite values with exact arithmetic
  (rounding is not modelled). Where the source can meet \<^verbatim>\<open>undefined\<close>, \<^verbatim>\<open>null\<close>,
  \<^verbatim>\<open>NaN\<close> or \<^verbatim>\<open>Infinity\<close>, the model uses an option: a landmark that is absent, a
  \<^verbatim>\<open>visibility\<close> that is missing, a rung y that is \<^verbatim>\<open>NaN\<close> (the ladder of one rung divides
  0 by 0), the running minimum of a search that starts at \<^verbatim>\<open>Infinity\<close>.

  A landmark is \<^verbatim>\<open>{x, y, visibility}\<close>; the fields are called \<open>px\<close>, \<open>py\<close> and \<open>visibility\<close>
  here. A frame \<^verbatim>\<open>lm\<close> maps a landmark index to its point, if detected; the frame itself may
  be \<^verbatim>\<open>null\<close>.
\<close>

record pt =
  px :: real
  py :: real
  visibility :: "real option"

type_synonym frame = "nat \<Rightarrow> pt option"

text \<open>\<^verbatim>\<open>clamp01 = (v) => Math.max(0, Math.min(1, Number.isFinite(+v) ? +v : 0.5))\<close>;
  \<open>None\<close> is a value that is not a finite number (\<^verbatim>\<open>lm[23]?.y\<close> of an absent hip).\<close>

definition clamp01 :: "real option \<Rightarrow> real" where
  "clamp01 v = max 0 (min 1 (case v of Some r \<Rightarrow> r | None \<Rightarrow> 0.5))"

text \<open>\<^verbatim>\<open>V2.ema(prev, next, a)\<close> and \<^verbatim>\<open>V2.dist(a, b)\<close> (\<open>distV2\<close>).\<close>

definition ema :: "pt option \<Rightarrow> pt option \<Rightarrow> real \<Rightarrow> pt option" where
  "ema prev nxt a =
     (case nxt of None \<Rightarrow> prev
      | Some n \<Rightarrow>
          (case prev of None \<Rightarrow> Some n
           | Some p \<Rightarrow>
               Some \<lparr>px = px p + a * (px n - px p), py = py p + a * (py n - py p),
                     visibility = Some (case visibility n of Some v \<Rightarrow> v | None \<Rightarrow> 1)\<rparr>))"

definition distV2 :: "pt \<Rightarrow> pt \<Rightarrow> real" where
  "distV2 a b = (let dx = px a - px b; dy = py a - py b in sqrt (dx * dx + dy * dy))"

section \<open>The auto-calibration ladder\<close>

datatype step = StepLeft | StepRight | StepDone

record rom_stats =
  neutralSamples :: "real list"
  maxReachLeft :: real
  maxReachRight :: real

text \<open>The parameters of \<^verbatim>\<open>CalibAuto.create\<close> that \<^verbatim>\<open>update\<close> and \<^verbatim>\<open>saveCalibration\<close> read
  (\<^verbatim>\<open>laneFollow\<close>, \<^verbatim>\<open>laneAlpha\<close> and \<^verbatim>\<open>laneClamp\<close> are stored and never read).\<close>

record ladderConfig =
  count :: nat
  yTop :: real
  yBottom :: real
  leftX :: real
  rightX :: real
  hitRadius :: real
  holdSeconds :: real
  kFrames :: nat
  maxSpeedPerSec :: real
  minVis :: real
  needsHips :: bool

text \<open>The grid object; the fields \<^verbatim>\<open>_lastTs\<close>, \<^verbatim>\<open>_sL\<close>, ... lose their leading underscore.\<close>

record grid = ladderConfig +
  yList :: "real option list"
  step :: step
  leftActive :: "nat option"
  rightActive :: "nat option"
  leftSaved :: "nat option"
  rightSaved :: "nat option"
  lastTs :: "real option"
  sL :: "pt option"
  sR :: "pt option"
  kOn :: nat
  hold :: real
  candidate :: "nat option"
  rom :: rom_stats
  maxRungL :: "nat option"
  maxRungR :: "nat option"
  minYLeft :: real
  minYRight :: real

definition defaults :: ladderConfig where
  "defaults = \<lparr>count = 8, yTop = 0.12, yBottom = 0.85, leftX = 0.18, rightX = 0.82,
               hitRadius = 0.12, holdSeconds = 5, kFrames = 6, maxSpeedPerSec = 0.60,
               minVis = 0.55, needsHips = True\<rparr>"

text \<open>\<^verbatim>\<open>yList = Array.from({length: count}, (_, i) => yBottom - (i / (count - 1)) * (yBottom - yTop))\<close>.
  With one rung the quotient is 0/0, so that rung's y is \<^verbatim>\<open>NaN\<close>.\<close>

definition create :: "ladderConfig \<Rightarrow> grid" where
  "create c =
     \<lparr>count = count c, yTop = yTop c, yBottom = yBottom c, leftX = leftX c, rightX = rightX c,
      hitRadius = hitRadius c, holdSeconds = holdSeconds c, kFrames = kFrames c,
      maxSpeedPerSec = maxSpeedPerSec c, minVis = minVis c, needsHips = needsHips c,
      yList = map (\<lambda>i. if count c = 1 then None
                         else Some (yBottom c - (real i / (real (count c) - 1)) * (yBottom c - yTop c)))
                  [0..<count c],
      step = StepLeft,
      leftActive = None, rightActive = None, leftSaved = None, rightSaved = None,
      lastTs = None, sL = None, sR = None, kOn = 0, hold = 0, candidate = None,
      rom = \<lparr>neutralSamples = [], maxReachLeft = 1, maxReachRight = 1\<rparr>,
      maxRungL = None, maxRungR = None, minYLeft = 1, minYRight = 1\<rparr>"

text \<open>\<^verbatim>\<open>grid.yList[i]\<close>: out of range it is \<^verbatim>\<open>undefined\<close>, which the arithmetic turns into
  \<^verbatim>\<open>NaN\<close> as well.\<close>

definition rungY :: "grid \<Rightarrow> nat \<Rightarrow> real option" where
  "rungY g i = (if i < length (yList g) then yList g ! i else None)"

text \<open>A comparison \<^verbatim>\<open>d < best\<close> where \<^verbatim>\<open>best\<close> starts at \<^verbatim>\<open>Infinity\<close> (\<open>None\<close>).\<close>

fun below :: "real \<Rightarrow> real option \<Rightarrow> bool" where
  "below d None = True"
| "below d (Some b) = (d < b)"

text \<open>One iteration of the loop of \<^verbatim>\<open>_hitIndex\<close>; a \<^verbatim>\<open>NaN\<close> distance is below nothing.\<close>

definition hitStep :: "grid \<Rightarrow> real \<Rightarrow> real \<Rightarrow> real \<Rightarrow> nat option \<times> real option \<Rightarrow> nat
    \<Rightarrow> nat option \<times> real option" where
  "hitStep g x y laneX acc i =
     (case rungY g i of None \<Rightarrow> acc
      | Some yy \<Rightarrow>
          (let dx = x - laneX; dy = y - yy; d2 = dx * dx + dy * dy
           in if below d2 (snd acc) then (Some i, Some d2) else acc))"

definition hitIndex :: "grid \<Rightarrow> real \<Rightarrow> real \<Rightarrow> real \<Rightarrow> nat option" where
  "hitIndex g x y laneX =
     (case foldl (hitStep g x y laneX) (None, None) [0..<count g] of
        (best, bestD2) \<Rightarrow>
          (case bestD2 of None \<Rightarrow> None
           | Some d \<Rightarrow>
               if sqrt d \<le> hitRadius g
               then Some (case best of Some b \<Rightarrow> b + 1 | None \<Rightarrow> 1)
               else None))"

definition nearStep :: "grid \<Rightarrow> real \<Rightarrow> nat \<times> real option \<Rightarrow> nat \<Rightarrow> nat \<times> real option" where
  "nearStep g y acc i =
     (case rungY g i of None \<Rightarrow> acc
      | Some yy \<Rightarrow> (let d = \<bar>yy - y\<bar> in if below d (snd acc) then (i + 1, Some d) else acc))"

definition nearestRung :: "grid \<Rightarrow> real \<Rightarrow> nat" where
  "nearestRung g y = fst (foldl (nearStep g y) (1, None) [0..<count g])"

text \<open>
  The object \<^verbatim>\<open>update\<close> returns. \<^verbatim>\<open>_status\<close> builds it with ten properties; the return of
  the frame that saves a rung builds it with six. A property the object does not have is
  \<open>Absent\<close>. The fields carry the prefix \<open>st_\<close>.
\<close>

datatype 'a field = Absent | Present 'a

record status =
  st_ok :: bool
  st_side :: step
  st_saved :: bool
  st_progress :: real
  st_countdown :: real
  st_step :: step
  st_leftActive :: "nat option field"
  st_rightActive :: "nat option field"
  st_leftSaved :: "nat option field"
  st_rightSaved :: "nat option field"

definition status :: "grid \<Rightarrow> step \<Rightarrow> real \<Rightarrow> status" where
  "status g side progress =
     (let progress = max 0 (min 1 progress);
          countdown = max 0 (holdSeconds g * (1 - progress))
      in \<lparr>st_ok = True, st_side = side, st_saved = False, st_progress = progress,
          st_countdown = countdown, st_step = step g,
          st_leftActive = Present (leftActive g), st_rightActive = Present (rightActive g),
          st_leftSaved = Present (leftSaved g), st_rightSaved = Present (rightSaved g)\<rparr>)"

text \<open>The pieces of \<^verbatim>\<open>update\<close>, in the order of the source.\<close>

definition visOr0 :: "pt option \<Rightarrow> real" where
  "visOr0 p = (case p of None \<Rightarrow> 0 | Some q \<Rightarrow> (case visibility q of None \<Rightarrow> 0 | Some v \<Rightarrow> v))"

definition hipsOK :: "grid \<Rightarrow> frame \<Rightarrow> bool" where
  "hipsOK g lm = (visOr0 (lm 23) \<ge> minVis g \<and> visOr0 (lm 24) \<ge> minVis g)"

definition vOK :: "grid \<Rightarrow> pt option \<Rightarrow> bool" where
  "vOK g p = (visOr0 p \<ge> minVis g)"

definition hipSample :: "frame \<Rightarrow> real" where
  "hipSample lm = max (clamp01 (map_option py (lm 23))) (clamp01 (map_option py (lm 24)))"

definition nrm :: "bool \<Rightarrow> pt \<Rightarrow> pt" where
  "nrm isMirrored p =
     \<lparr>px = clamp01 (Some (if isMirrored then 1 - px p else px p)), py = clamp01 (Some (py p)),
      visibility = Some (case visibility p of Some v \<Rightarrow> v | None \<Rightarrow> 1)\<rparr>"

text \<open>\<^verbatim>\<open>dt = grid._lastTs ? (now - grid._lastTs) / 1000 : 0\<close>: a timestamp of 0 is falsy.\<close>

definition frameDt :: "grid \<Rightarrow> real \<Rightarrow> real" where
  "frameDt g now = (case lastTs g of None \<Rightarrow> 0 | Some t \<Rightarrow> if t = 0 then 0 else (now - t) / 1000)"

text \<open>\<^verbatim>\<open>(prev && dt > 0) ? V2.dist(prev, w) / dt : 0\<close>: the raw point against the last
  smoothed one.\<close>

definition speed :: "pt option \<Rightarrow> pt \<Rightarrow> real \<Rightarrow> real" where
  "speed prev w dt = (case prev of None \<Rightarrow> 0 | Some p \<Rightarrow> if dt > 0 then distV2 p w / dt else 0)"

text \<open>\<^verbatim>\<open>grid._sL || wL\<close>: the smoothed point, or the raw one while there is none.\<close>

definition orElse :: "pt option \<Rightarrow> pt \<Rightarrow> pt" where
  "orElse s w = (case s of Some p \<Rightarrow> p | None \<Rightarrow> w)"

text \<open>Lines 59 to 67: timestamp, smoothing, hit tests and the highest reach of each hand.\<close>

definition track :: "grid \<Rightarrow> pt \<Rightarrow> pt \<Rightarrow> real \<Rightarrow> grid" where
  "track g wL wR now =
     (let g1 = g\<lparr>lastTs := Some now\<rparr>;
          g2 = g1\<lparr>sL := ema (sL g1) (Some wL) 0.35\<rparr>;
          g3 = g2\<lparr>sR := ema (sR g2) (Some wR) 0.35\<rparr>;
          l = orElse (sL g3) wL;
          r = orElse (sR g3) wR;
          g4 = g3\<lparr>leftActive := hitIndex g3 (px l) (py l) (leftX g3)\<rparr>;
          g5 = g4\<lparr>rightActive := hitIndex g4 (px r) (py r) (rightX g4)\<rparr>;
          g6 = (if py l < minYLeft g5
                then g5\<lparr>minYLeft := py l, maxRungL := Some (nearestRung g5 (py l))\<rparr> else g5);
          g7 = (if py r < minYRight g6
                then g6\<lparr>minYRight := py r, maxRungR := Some (nearestRung g6 (py r))\<rparr> else g6)
      in g7)"

text \<open>Lines 74 to 84: candidate, steadiness, hold timer and completion. \<open>active\<close> is the
  rung of the hand being calibrated, \<open>spd\<close> its raw speed, \<open>yHand\<close> its smoothed y.\<close>

definition accrue :: "grid \<Rightarrow> nat \<Rightarrow> real \<Rightarrow> real \<Rightarrow> grid" where
  "accrue g active spd dt =
     (let g1 = (if candidate g \<noteq> Some active
                then g\<lparr>candidate := Some active, kOn := 0, hold := 0\<rparr> else g);
          g2 = (if spd \<le> maxSpeedPerSec g1 then g1\<lparr>kOn := kOn g1 + 1\<rparr> else g1);
          g3 = (if kOn g2 \<ge> kFrames g2 then g2\<lparr>hold := hold g2 + dt\<rparr> else g2)
      in g3)"

definition completion :: "grid \<Rightarrow> step \<Rightarrow> grid \<times> status" where
  "completion g side =
     (if hold g \<ge> holdSeconds g
      then (let g1 = (if side = StepLeft then g\<lparr>leftSaved := candidate g\<rparr>
                      else g\<lparr>rightSaved := candidate g\<rparr>);
                g2 = g1\<lparr>candidate := None, kOn := 0, hold := 0,
                        step := (if side = StepLeft then StepRight else StepDone)\<rparr>
            in (g2, \<lparr>st_ok = True, st_side = side, st_saved = True, st_progress = 1,
                     st_countdown = 0, st_step = step g2,
                     st_leftActive = Absent, st_rightActive = Absent,
                     st_leftSaved = Absent, st_rightSaved = Absent\<rparr>))
      else (g, status g side (hold g / holdSeconds g)))"

definition settle :: "grid \<Rightarrow> real \<Rightarrow> real \<Rightarrow> real \<Rightarrow> real \<Rightarrow> real \<Rightarrow> grid \<times> status" where
  "settle g spdL spdR dt yL yR =
     (let side = step g;
          active = (if side = StepLeft then leftActive g else rightActive g);
          spd = (if side = StepLeft then spdL else spdR);
          yHand = (if side = StepLeft then yL else yR)
      in case active of
           None \<Rightarrow>
             (let g1 = g\<lparr>candidate := None, kOn := 0, hold := 0\<rparr>;
                  g2 = g1\<lparr>rom := (rom g1)\<lparr>neutralSamples := neutralSamples (rom g1) @ [yHand]\<rparr>\<rparr>
              in (g2, status g2 side 0))
         | Some a \<Rightarrow> completion (accrue g a spd dt) side)"

text \<open>\<^verbatim>\<open>CalibAuto.update(grid, lm, {isMirrored})\<close> at the time \<open>now\<close> that
  \<^verbatim>\<open>performance.now()\<close> returns. The grid is returned updated, with the status.\<close>

definition update :: "grid \<Rightarrow> frame option \<Rightarrow> bool \<Rightarrow> real \<Rightarrow> grid \<times> status" where
  "update g lmo isMirrored now =
     (case lmo of None \<Rightarrow> (g, status g (step g) 0)
      | Some lm \<Rightarrow>
          (case lm 15 of None \<Rightarrow> (g, status g (step g) 0)
           | Some p15 \<Rightarrow>
               (case lm 16 of None \<Rightarrow> (g, status g (step g) 0)
                | Some p16 \<Rightarrow>
                    if needsHips g \<and> \<not> hipsOK g lm
                    then (let g1 = g\<lparr>candidate := None, kOn := 0, hold := 0\<rparr>
                          in (g1, status g1 (step g1) 0))
                    else
                      (let g1 = g\<lparr>rom := (rom g)\<lparr>neutralSamples :=
                                        neutralSamples (rom g) @ [hipSample lm]\<rparr>\<rparr>
                       in if \<not> vOK g1 (Some p15) \<or> \<not> vOK g1 (Some p16)
                          then (let g2 = g1\<lparr>kOn := 0, hold := 0\<rparr> in (g2, status g2 (step g2) 0))
                          else
                            (let wL = nrm isMirrored p15; wR = nrm isMirrored p16;
                                 dt = frameDt g1 now;
                                 prevL = sL g1; prevR = sR g1;
                                 g2 = track g1 wL wR now;
                                 spdL = speed prevL wL dt; spdR = speed prevR wR dt
                             in settle g2 spdL spdR dt
                                  (py (orElse (sL g2) wL)) (py (orElse (sR g2) wR)))))))"

text \<open>A session is the grid of \<^verbatim>\<open>create\<close> followed by one \<^verbatim>\<open>update\<close> per frame; each
  input is the landmark frame, the mirroring flag and the clock reading of that call.\<close>

type_synonym tick = "frame option \<times> bool \<times> real"

definition updates :: "grid \<Rightarrow> tick list \<Rightarrow> grid" where
  "updates g ticks = foldl (\<lambda>h (lm, mir, now). fst (update h lm mir now)) g ticks"

section \<open>Writing the calibration record\<close>

text \<open>\<^verbatim>\<open>yAtIndex = (yList, idx) => { const i = Math.max(1, Math.min(yList.length, idx));
  return yList[i - 1]; }\<close>, where \<^verbatim>\<open>Math.min\<close> reads a \<^verbatim>\<open>null\<close> index as 0.\<close>

definition yAtIndex :: "real option list \<Rightarrow> nat option \<Rightarrow> real option" where
  "yAtIndex ys idx =
     (let i = max 1 (min (length ys) (case idx of None \<Rightarrow> 0 | Some k \<Rightarrow> k))
      in if i - 1 < length ys then ys ! (i - 1) else None)"

record romPayload =
  rom_neutralY :: real
  rom_maxReachLeftY :: real
  rom_maxReachRightY :: real

text \<open>The payload of \<^verbatim>\<open>saveCalibration\<close>; its fields carry the prefix \<open>p_\<close>.\<close>

record payload =
  p_t :: real
  p_mirror :: bool
  p_count :: nat
  p_yTop :: real
  p_yBottom :: real
  p_leftX :: real
  p_rightX :: real
  p_hitRadius :: real
  p_leftIndex :: "nat option"
  p_rightIndex :: "nat option"
  p_leftY :: "real option"
  p_rightY :: "real option"
  p_rom :: romPayload
  p_version :: string

definition neutralOf :: "grid \<Rightarrow> real" where
  "neutralOf g =
     (if length (neutralSamples (rom g)) \<noteq> 0
      then foldl (\<lambda>a b. a + b) 0 (neutralSamples (rom g)) / real (length (neutralSamples (rom g)))
      else yBottom g)"

text \<open>\<^verbatim>\<open>saveCalibration()\<close> on the grid, at the wall-clock time \<open>t\<close> of \<^verbatim>\<open>Date.now()\<close>.\<close>

definition saveCalibration :: "grid \<Rightarrow> real \<Rightarrow> payload" where
  "saveCalibration g t =
     \<lparr>p_t = t, p_mirror = True, p_count = count g, p_yTop = yTop g, p_yBottom = yBottom g,
      p_leftX = leftX g, p_rightX = rightX g, p_hitRadius = hitRadius g,
      p_leftIndex = leftSaved g, p_rightIndex = rightSaved g,
      p_leftY = yAtIndex (yList g) (leftSaved g), p_rightY = yAtIndex (yList g) (rightSaved g),
      p_rom = \<lparr>rom_neutralY = neutralOf g, rom_maxReachLeftY = minYLeft g,
                rom_maxReachRightY = minYRight g\<rparr>,
      p_version = ''ladder-v2''\<rparr>"

text \<open>
  The page: the module variables \<^verbatim>\<open>grid\<close>, \<^verbatim>\<open>running\<close> and \<^verbatim>\<open>savedOnce\<close>, and the payloads
  handed to storage so far (\<open>stored\<close>, oldest first; each is written under the three keys).
  \<^verbatim>\<open>start\<close> and \<^verbatim>\<open>reset\<close> make a grid from \<^verbatim>\<open>defaults\<close>; \<^verbatim>\<open>mainLoop\<close> runs one
  \<^verbatim>\<open>update\<close> on the latest frame and saves once when the step is \<^verbatim>\<open>"done"\<close>.
\<close>

record page =
  theGrid :: "grid option"
  running :: bool
  savedOnce :: bool
  stored :: "payload list"

datatype event = Start | Reset | MainLoop "frame option" real real

definition initialPage :: page where
  "initialPage = \<lparr>theGrid = None, running = False, savedOnce = False, stored = []\<rparr>"

definition mainLoop :: "page \<Rightarrow> frame option \<Rightarrow> real \<Rightarrow> real \<Rightarrow> page" where
  "mainLoop s latestLm now wall =
     (if \<not> running s then s
      else case latestLm of None \<Rightarrow> s
           | Some lm \<Rightarrow>
               (case theGrid s of None \<Rightarrow> s
                | Some g \<Rightarrow>
                    (let g1 = fst (update g (Some lm) True now);
                         s1 = s\<lparr>theGrid := Some g1\<rparr>
                     in if step g1 = StepDone \<and> \<not> savedOnce s1
                        then s1\<lparr>savedOnce := True, stored := stored s1 @ [saveCalibration g1 wall]\<rparr>
                        else s1)))"

fun handle :: "page \<Rightarrow> event \<Rightarrow> page" where
  "handle s Start = (if running s then s else s\<lparr>running := True, theGrid := Some (create defaults)\<rparr>)"
| "handle s Reset = s\<lparr>savedOnce := False, theGrid := Some (create defaults)\<rparr>"
| "handle s (MainLoop latestLm now wall) = mainLoop s latestLm now wall"

section \<open>Live feedback\<close>

text \<open>
  What \<^verbatim>\<open>setLevel\<close> reads of a calibration: \<^verbatim>\<open>calib?.rom?.neutralY\<close> and the two maximum
  reaches, each after \<^verbatim>\<open>Number(v)\<close>; \<open>None\<close> is a value that is not a finite number. A
  calibration without \<^verbatim>\<open>rom\<close> is \<open>None\<close> at the inner option, no calibration at the outer.
\<close>

record romView =
  neutralYOf :: "real option"
  maxReachLeftYOf :: "real option"
  maxReachRightYOf :: "real option"

type_synonym calib = "romView option"

datatype phase = Up | WaitDown

text \<open>The \<^verbatim>\<open>LiveFeedback\<close> object. The feedback element is its text and class, if the
  element was found.\<close>

record feedback =
  feedbackElement :: "(string \<times> string) option"
  currentFeedback :: string
  lastFeedbackTime :: real
  feedbackCooldown :: real
  angleTolerance :: real
  level :: real
  levels :: real
  calib :: "calib option"
  targetY :: real
  neutralY :: real
  downBuffer :: real
  requireDownFrames :: real
  requireUpFrames :: real
  phase :: phase
  downCounter :: nat
  upCounter :: nat

definition newFeedback :: feedback where
  "newFeedback =
     \<lparr>feedbackElement = None, currentFeedback = [], lastFeedbackTime = 0,
      feedbackCooldown = 1500, angleTolerance = 15, level = 1, levels = 3, calib = None,
      targetY = 0.6, neutralY = 0.78, downBuffer = 0.02, requireDownFrames = 8,
      requireUpFrames = 5, phase = Up, downCounter = 0, upCounter = 0\<rparr>"

text \<open>\<^verbatim>\<open>_safeNum(v, fallback)\<close>, \<^verbatim>\<open>_lerp(a, b, t)\<close> and \<^verbatim>\<open>Number(v) || d\<close> (0 and
  \<^verbatim>\<open>NaN\<close> are falsy).\<close>

definition safeNum :: "real option \<Rightarrow> real \<Rightarrow> real" where
  "safeNum v fallback = (case v of Some r \<Rightarrow> r | None \<Rightarrow> fallback)"

definition lerp :: "real \<Rightarrow> real \<Rightarrow> real \<Rightarrow> real" where
  "lerp a b t = a + (b - a) * max 0 (min 1 t)"

definition numberOr :: "real option \<Rightarrow> real \<Rightarrow> real" where
  "numberOr v d = (case v of None \<Rightarrow> d | Some r \<Rightarrow> if r = 0 then d else r)"

definition romField :: "calib option \<Rightarrow> (romView \<Rightarrow> real option) \<Rightarrow> real option" where
  "romField c f = (case c of None \<Rightarrow> None | Some None \<Rightarrow> None | Some (Some r) \<Rightarrow> f r)"

text \<open>\<^verbatim>\<open>setLevel(level, levels, calib)\<close>; an argument that is not a number is \<open>None\<close>, a
  calibration that is falsy is \<open>None\<close>.\<close>

definition setLevel :: "feedback \<Rightarrow> real option \<Rightarrow> real option \<Rightarrow> calib option \<Rightarrow> feedback" where
  "setLevel fb lv lvs cal =
     (let fb1 = fb\<lparr>level := max 1 (numberOr lv 1)\<rparr>;
          fb2 = fb1\<lparr>levels := max (level fb1) (numberOr lvs (level fb1))\<rparr>;
          fb3 = fb2\<lparr>calib := (case cal of Some c \<Rightarrow> Some c | None \<Rightarrow> calib fb2)\<rparr>;
          neutral = safeNum (romField (calib fb3) neutralYOf) 0.78;
          maxYL = safeNum (romField (calib fb3) maxReachLeftYOf) 0.18;
          maxYR = safeNum (romField (calib fb3) maxReachRightYOf) 0.18;
          maxY = min maxYL maxYR;
          fb4 = fb3\<lparr>neutralY := neutral\<rparr>;
          t = (level fb4 - 1) / max 1 (levels fb4 - 1);
          frac = 0.15 + 0.50 * t
      in fb4\<lparr>targetY := lerp neutral maxY frac\<rparr>)"

text \<open>\<^verbatim>\<open>setPhase(phase)\<close>: the two phase names are accepted, any other string is ignored.\<close>

definition setPhase :: "feedback \<Rightarrow> string \<Rightarrow> feedback" where
  "setPhase fb p =
     (if p = ''up'' \<or> p = ''waitDown''
      then fb\<lparr>phase := (if p = ''up'' then Up else WaitDown), downCounter := 0, upCounter := 0\<rparr>
      else fb)"

text \<open>\<^verbatim>\<open>Math.atan2(y, x)\<close> on finite numbers (signed zeros are not modelled).\<close>

definition atan2 :: "real \<Rightarrow> real \<Rightarrow> real" where
  "atan2 y x =
     (if x > 0 then arctan (y / x)
      else if x < 0 then (if y \<ge> 0 then arctan (y / x) + pi else arctan (y / x) - pi)
      else if y > 0 then pi / 2 else if y < 0 then - (pi / 2) else 0)"

definition calculateAngle :: "pt \<Rightarrow> pt \<Rightarrow> pt \<Rightarrow> real" where
  "calculateAngle a b c =
     (let radians = atan2 (py c - py b) (px c - px b) - atan2 (py a - py b) (px a - px b);
          angle = \<bar>radians * 180 / pi\<bar>
      in if angle > 180 then 360 - angle else angle)"

text \<open>\<^verbatim>\<open>isVisible(landmark, threshold = 0.5)\<close>.\<close>

definition isVisible :: "pt option \<Rightarrow> bool" where
  "isVisible p = (case p of None \<Rightarrow> False
                  | Some q \<Rightarrow> (case visibility q of None \<Rightarrow> 0 | Some v \<Rightarrow> v) > 0.5)"

text \<open>\<^verbatim>\<open>showFeedback(message, type)\<close> at the time \<open>now\<close> of \<^verbatim>\<open>Date.now()\<close>. The timer that
  clears the element later is not part of the model.\<close>

definition showFeedback :: "feedback \<Rightarrow> string \<Rightarrow> string \<Rightarrow> real \<Rightarrow> feedback" where
  "showFeedback fb message type now =
     (if feedbackElement fb = None \<or> message = [] then fb
      else if now - lastFeedbackTime fb < 500 then fb
      else fb\<lparr>currentFeedback := message, lastFeedbackTime := now,
              feedbackElement := Some (message, ''live-feedback-container '' @ type)\<rparr>)"

text \<open>The success message of the phase \<^verbatim>\<open>"up"\<close> ends in the character U+2026, here its
  three bytes in UTF-8.\<close>

definition niceHeight :: string where
  "niceHeight = ''Nice height! Hold'' @ [CHR 0xE2, CHR 0x80, CHR 0xA6]"

text \<open>
  \<^verbatim>\<open>provideShoulderAbductionFeedback(landmarks)\<close>. Every path makes at most one call of
  \<^verbatim>\<open>showFeedback\<close>; the model returns the object after that call together with the call's
  arguments (message and type), \<open>None\<close> when no call is made. The coordinates of a landmark
  are read (\<open>the\<close>) only after \<^verbatim>\<open>isVisible\<close> has found the landmark present, as in the
  source.
\<close>

definition say :: "feedback \<Rightarrow> string \<Rightarrow> string \<Rightarrow> real \<Rightarrow> feedback \<times> (string \<times> string) option" where
  "say fb message type now = (showFeedback fb message type now, Some (message, type))"

definition bentElbow :: "pt option \<Rightarrow> pt option \<Rightarrow> pt option \<Rightarrow> bool" where
  "bentElbow s e w =
     (isVisible e \<and> isVisible w \<and>
      (case (s, e, w) of
         (Some sp, Some ep, Some wp) \<Rightarrow>
           (let a = calculateAngle sp ep wp in a \<noteq> 0 \<and> a < 160)
       | _ \<Rightarrow> False))"

definition heights :: "feedback \<Rightarrow> pt \<Rightarrow> pt \<Rightarrow> real \<Rightarrow> feedback \<times> (string \<times> string) option" where
  "heights fb Lw Rw now =
     (let leftUpEnough = py Lw \<le> targetY fb + 0.02;
          rightUpEnough = py Rw \<le> targetY fb + 0.02
      in if phase fb = WaitDown
         then (let downLimitY = neutralY fb + downBuffer fb;
                   leftDown = py Lw \<ge> downLimitY;
                   rightDown = py Rw \<ge> downLimitY;
                   fb1 = fb\<lparr>downCounter := (if leftDown \<and> rightDown then downCounter fb + 1 else 0)\<rparr>
               in if \<not> leftDown \<and> \<not> rightDown
                  then say fb1 ''Lower both arms to reset'' ''correction'' now
                  else if \<not> leftDown then say fb1 ''Lower your left arm to reset'' ''correction'' now
                  else if \<not> rightDown then say fb1 ''Lower your right arm to reset'' ''correction'' now
                  else if real (downCounter fb1) \<ge> requireDownFrames fb1
                  then say fb1 ''Great reset! Ready for the next rep'' ''success'' now
                  else (fb1, None))
         else if \<not> leftUpEnough \<and> \<not> rightUpEnough
         then (let (fb1, m) = say fb ''Raise both arms higher'' ''correction'' now
               in (fb1\<lparr>upCounter := 0\<rparr>, m))
         else if \<not> leftUpEnough
         then (let (fb1, m) = say fb ''Raise your left arm higher'' ''correction'' now
               in (fb1\<lparr>upCounter := 0\<rparr>, m))
         else if \<not> rightUpEnough
         then (let (fb1, m) = say fb ''Raise your right arm higher'' ''correction'' now
               in (fb1\<lparr>upCounter := 0\<rparr>, m))
         else (let fb1 = fb\<lparr>upCounter := upCounter fb + 1\<rparr>
               in if real (upCounter fb1) \<ge> requireUpFrames fb1
                  then say fb1 niceHeight ''success'' now
                  else (fb1, None)))"

definition provideShoulderAbductionFeedback ::
    "feedback \<Rightarrow> frame option \<Rightarrow> real \<Rightarrow> feedback \<times> (string \<times> string) option" where
  "provideShoulderAbductionFeedback fb landmarks now =
     (case landmarks of None \<Rightarrow> (fb, None)
      | Some lm \<Rightarrow>
          (let Ls = lm 11; Rs = lm 12; Le = lm 13; Re = lm 14; Lw = lm 15; Rw = lm 16
           in if \<not> isVisible Ls \<or> \<not> isVisible Rs
              then say fb ''Keep both shoulders visible'' ''warning'' now
              else if \<bar>py (the Ls) - py (the Rs)\<bar> > 0.05
              then say fb ''Keep your shoulders level'' ''correction'' now
              else if bentElbow Ls Le Lw
              then say fb ''Straighten your left elbow'' ''correction'' now
              else if bentElbow Rs Re Rw
              then say fb ''Straighten your right elbow'' ''correction'' now
              else if \<not> isVisible Lw \<or> \<not> isVisible Rw
              then say fb ''Keep your hands visible'' ''warning'' now
              else heights fb (the Lw) (the Rw) now))"

section \<open>Observations and example data\<close>

text \<open>The target that \<^verbatim>\<open>setLevel\<close> derives for level \<open>L\<close> of \<open>N\<close> from a calibration whose
  \<^verbatim>\<open>rom\<close> is \<open>r\<close>, and the ramp position \<open>t\<close> of the specification.\<close>

definition levelTarget :: "feedback \<Rightarrow> nat \<Rightarrow> nat \<Rightarrow> romView \<Rightarrow> real" where
  "levelTarget fb L N r = targetY (setLevel fb (Some (real L)) (Some (real N)) (Some (Some r)))"

definition rampT :: "nat \<Rightarrow> nat \<Rightarrow> real" where
  "rampT L N = (if N = 1 then 0 else (real L - 1) / (real N - 1))"

text \<open>A calibration as the ladder writes it: arms down at 0.8, reaches at 0.2 and 0.3.\<close>

definition measured :: romView where
  "measured = \<lparr>neutralYOf = Some 0.8, maxReachLeftYOf = Some 0.2, maxReachRightYOf = Some 0.3\<rparr>"

text \<open>
  The grid and the side with which \<^verbatim>\<open>update\<close> arrives at its completion test
  \<^verbatim>\<open>if (grid._hold >= grid.holdSeconds)\<close>, after the hold timer of this frame has run;
  \<open>None\<close> when the call returns before the test. \<open>holdTime\<close> is the accumulated hold time of
  the frame: the value of \<^verbatim>\<open>grid._hold\<close> at the test, or at the return when the call leaves
  earlier.
\<close>

definition reached :: "grid \<Rightarrow> frame option \<Rightarrow> bool \<Rightarrow> real \<Rightarrow> (grid \<times> step) option" where
  "reached g lmo isMirrored now =
     (case lmo of None \<Rightarrow> None
      | Some lm \<Rightarrow>
          (case lm 15 of None \<Rightarrow> None
           | Some p15 \<Rightarrow>
               (case lm 16 of None \<Rightarrow> None
                | Some p16 \<Rightarrow>
                    if (needsHips g \<and> \<not> hipsOK g lm) \<or> \<not> vOK g (Some p15) \<or> \<not> vOK g (Some p16)
                    then None
                    else
                      (let g1 = g\<lparr>rom := (rom g)\<lparr>neutralSamples :=
                                        neutralSamples (rom g) @ [hipSample lm]\<rparr>\<rparr>;
                           wL = nrm isMirrored p15; wR = nrm isMirrored p16;
                           dt = frameDt g1 now;
                           g2 = track g1 wL wR now;
                           side = step g2
                       in case (if side = StepLeft then leftActive g2 else rightActive g2) of
                            None \<Rightarrow> None
                          | Some a \<Rightarrow>
                              Some (accrue g2 a
                                      (if side = StepLeft then speed (sL g1) wL dt
                                       else speed (sR g1) wR dt) dt, side)))))"

definition holdTime :: "grid \<Rightarrow> frame option \<Rightarrow> bool \<Rightarrow> real \<Rightarrow> real" where
  "holdTime g lmo isMirrored now =
     (case reached g lmo isMirrored now of
        Some (h, side) \<Rightarrow> hold h
      | None \<Rightarrow> hold (fst (update g lmo isMirrored now)))"

text \<open>The order of the steps: left, then right, then done.\<close>

fun stepRank :: "step \<Rightarrow> nat" where
  "stepRank StepLeft = 0"
| "stepRank StepRight = 1"
| "stepRank StepDone = 2"

text \<open>
  Example data. A landmark seen with confidence 0.9; a body with both hips visible and the
  wrists at the given raw points; the frame in which both hands rest on the lowest rung of
  their lanes (the picture is mirrored, so the left wrist is at raw x = 0.82). \<open>held k h t ns\<close>
  is the default grid while both hands rest there: \<open>k\<close> steady frames counted, \<open>h\<close> seconds
  held, last frame at \<open>t\<close>, neutral samples \<open>ns\<close>.
\<close>

definition seen :: "real \<Rightarrow> real \<Rightarrow> pt" where
  "seen a b = \<lparr>px = a, py = b, visibility = Some 0.9\<rparr>"

definition body :: "pt \<Rightarrow> pt \<Rightarrow> frame" where
  "body l r = (\<lambda>i. if i = 15 then Some l else if i = 16 then Some r
     else if i = 23 then Some (seen 0.45 0.5) else if i = 24 then Some (seen 0.55 0.6) else None)"

definition onRung1 :: frame where
  "onRung1 = body (seen 0.82 0.85) (seen 0.18 0.85)"

definition held :: "nat \<Rightarrow> real \<Rightarrow> real \<Rightarrow> real list \<Rightarrow> grid" where
  "held k h t ns = (create defaults)\<lparr>leftActive := Some 1, rightActive := Some 1,
     lastTs := Some t, sL := Some (seen 0.18 0.85), sR := Some (seen 0.82 0.85),
     kOn := k, hold := h, candidate := Some 1,
     rom := \<lparr>neutralSamples = ns, maxReachLeft = 1, maxReachRight = 1\<rparr>,
     maxRungL := Some 1, maxRungR := Some 1, minYLeft := 0.85, minYRight := 0.85\<rparr>"

text \<open>Six frames, 100 ms apart, with the hands on the lowest rungs.\<close>

definition sixTicks :: "tick list" where
  "sixTicks = [(Some onRung1, True, 1000), (Some onRung1, True, 1100), (Some onRung1, True, 1200),
     (Some onRung1, True, 1300), (Some onRung1, True, 1400), (Some onRung1, True, 1500)]"

text \<open>The frame \<open>onRung1\<close> with the left wrist not detected.\<close>

definition noLeftWrist :: frame where
  "noLeftWrist = (\<lambda>i. if i = 15 then None else onRung1 i)"



text \<open>The smoothed y of the hand being calibrated, \<^verbatim>\<open>yHand\<close>, for the raw wrists \<open>p15\<close> and
  \<open>p16\<close> of the frame.\<close>

definition handY :: "grid \<Rightarrow> pt \<Rightarrow> pt \<Rightarrow> bool \<Rightarrow> real" where
  "handY g p15 p16 isMirrored =
     (if step g = StepLeft
      then py (orElse (ema (sL g) (Some (nrm isMirrored p15)) 0.35) (nrm isMirrored p15))
      else py (orElse (ema (sR g) (Some (nrm isMirrored p16)) 0.35) (nrm isMirrored p16)))"

text \<open>The frame with both wrists at the height of the lowest rung, half way between the
  lanes: no rung is hit.\<close>

definition betweenLanes :: frame where
  "betweenLanes = body (seen 0.5 0.85) (seen 0.5 0.85)"





text \<open>A rung index of a ladder of \<open>n\<close> rungs: \<^verbatim>\<open>null\<close> or one of 1 to \<open>n\<close>. \<open>rungsInRange\<close>
  says so of the active, saved and maximum-reach rungs of both hands.\<close>

definition rungOK :: "nat \<Rightarrow> nat option \<Rightarrow> bool" where
  "rungOK n r = (case r of None \<Rightarrow> True | Some k \<Rightarrow> 1 \<le> k \<and> k \<le> n)"

definition rungsInRange :: "grid \<Rightarrow> bool" where
  "rungsInRange g =
     (rungOK (count g) (leftActive g) \<and> rungOK (count g) (rightActive g)
      \<and> rungOK (count g) (leftSaved g) \<and> rungOK (count g) (rightSaved g)
      \<and> rungOK (count g) (maxRungL g) \<and> rungOK (count g) (maxRungR g))"



text \<open>The page run on a list of events, from the state in which it loads.\<close>

definition handleAll :: "page \<Rightarrow> event list \<Rightarrow> page" where
  "handleAll s evs = foldl handle s evs"

text \<open>A payload with both rung indices set; a grid whose saved rungs fit its step (the left
  rung saved once the step is right, both once it is done); a page whose grid is such and
  whose written payloads have both indices.\<close>

definition bothIndices :: "payload \<Rightarrow> bool" where
  "bothIndices p = (p_leftIndex p \<noteq> None \<and> p_rightIndex p \<noteq> None)"

definition savedFitsStep :: "grid \<Rightarrow> bool" where
  "savedFitsStep g =
     (case step g of StepLeft \<Rightarrow> True
      | StepRight \<Rightarrow> leftSaved g \<noteq> None
      | StepDone \<Rightarrow> leftSaved g \<noteq> None \<and> rightSaved g \<noteq> None)"

definition pageOK :: "page \<Rightarrow> bool" where
  "pageOK s =
     ((case theGrid s of None \<Rightarrow> True | Some g \<Rightarrow> savedFitsStep g)
      \<and> list_all bothIndices (stored s))"

text \<open>
  Example data: the default grid while both hands rest on rung 1, at any step, with any saved
  rungs and candidate (\<open>held\<close> is the case of the step left, nothing saved, candidate 1); and
  a whole session: start, six frames and a seventh five seconds later for the left hand, then
  the same for the right hand.
\<close>

definition resting ::
    "step \<Rightarrow> nat option \<Rightarrow> nat option \<Rightarrow> nat option \<Rightarrow> nat \<Rightarrow> real \<Rightarrow> real \<Rightarrow> real list \<Rightarrow> grid" where
  "resting st ls rs cand k h t ns =
     (held k h t ns)\<lparr>step := st, leftSaved := ls, rightSaved := rs, candidate := cand\<rparr>"

definition fullSession :: "event list" where
  "fullSession = Start # map (\<lambda>t. MainLoop (Some onRung1) t 0)
     [1000, 1100, 1200, 1300, 1400, 1500, 6500, 6600, 6700, 6800, 6900, 7000, 7100, 12100]"

text \<open>
  A frame passes the checks that come before the height check of the shoulder-abduction
  feedback when both shoulders are visible and level, no visible elbow is bent and both
  wrists are visible. \<open>wristsUp\<close> is the height test of the phase \<^verbatim>\<open>"up"\<close> for both wrists.
\<close>

definition heightChecked :: "frame \<Rightarrow> bool" where
  "heightChecked lm =
     (isVisible (lm 11) \<and> isVisible (lm 12)
      \<and> \<not> \<bar>py (the (lm 11)) - py (the (lm 12))\<bar> > 0.05
      \<and> \<not> bentElbow (lm 11) (lm 13) (lm 15) \<and> \<not> bentElbow (lm 12) (lm 14) (lm 16)
      \<and> isVisible (lm 15) \<and> isVisible (lm 16))"

definition wristsUp :: "feedback \<Rightarrow> frame \<Rightarrow> bool" where
  "wristsUp fb lm =
     (case lm 15 of None \<Rightarrow> False
      | Some Lw \<Rightarrow>
          (case lm 16 of None \<Rightarrow> False
           | Some Rw \<Rightarrow> py Lw \<le> targetY fb + 0.02 \<and> py Rw \<le> targetY fb + 0.02))"

text \<open>The feedback object after a list of frames, each with the time of its call; and, for
  the frames seen so far, the number of height-checked frames since the last height-checked
  frame with a wrist below the target.\<close>

definition feedbackRun :: "feedback \<Rightarrow> (frame \<times> real) list \<Rightarrow> feedback" where
  "feedbackRun fb frames =
     foldl (\<lambda>f (lm, now). fst (provideShoulderAbductionFeedback f (Some lm) now)) fb frames"

definition upStreak :: "feedback \<Rightarrow> frame list \<Rightarrow> nat" where
  "upStreak fb frames = length (takeWhile (wristsUp fb) (rev (filter heightChecked frames)))"

text \<open>Example frames: shoulders level and visible, elbows not detected, and both wrists at
  y = 0.3 (\<open>armsUp\<close>); the same body with the wrists at y = 0.9 and the left shoulder not
  detected (\<open>hiddenDrop\<close>).\<close>

definition armsUp :: frame where
  "armsUp = (\<lambda>i. if i = 11 then Some (seen 0.4 0.3) else if i = 12 then Some (seen 0.6 0.3)
     else if i = 15 then Some (seen 0.2 0.3) else if i = 16 then Some (seen 0.8 0.3) else None)"

definition hiddenDrop :: frame where
  "hiddenDrop = (\<lambda>i. if i = 12 then Some (seen 0.6 0.3)
     else if i = 15 then Some (seen 0.2 0.9) else if i = 16 then Some (seen 0.8 0.9) else None)"

text \<open>A new feedback object put into the phase \<^verbatim>\<open>"up"\<close>, and four frames with the arms up,
  100 ms apart.\<close>

definition fbUp :: feedback where
  "fbUp = setPhase newFeedback ''up''"

definition fourUp :: "(frame \<times> real) list" where
  "fourUp = [(armsUp, 0), (armsUp, 100), (armsUp, 200), (armsUp, 300)]"

section \<open>The calibration ladder: helper facts\<close>

subsection \<open>What the pieces of the update leave alone\<close>

lemma track_keeps [simp]:
  "step (track g wL wR now) = step g"
  "leftSaved (track g wL wR now) = leftSaved g"
  "rightSaved (track g wL wR now) = rightSaved g"
  "hold (track g wL wR now) = hold g"
  "kOn (track g wL wR now) = kOn g"
  "candidate (track g wL wR now) = candidate g"
  "holdSeconds (track g wL wR now) = holdSeconds g"
  "kFrames (track g wL wR now) = kFrames g"
  "maxSpeedPerSec (track g wL wR now) = maxSpeedPerSec g"
  "rom (track g wL wR now) = rom g"
  "count (track g wL wR now) = count g"
  "yList (track g wL wR now) = yList g"
  "yBottom (track g wL wR now) = yBottom g"
  by (simp_all add: track_def Let_def)

lemma accrue_keeps [simp]:
  "step (accrue g a spd dt) = step g"
  "leftSaved (accrue g a spd dt) = leftSaved g"
  "rightSaved (accrue g a spd dt) = rightSaved g"
  "leftActive (accrue g a spd dt) = leftActive g"
  "rightActive (accrue g a spd dt) = rightActive g"
  "maxRungL (accrue g a spd dt) = maxRungL g"
  "maxRungR (accrue g a spd dt) = maxRungR g"
  "candidate (accrue g a spd dt) = Some a"
  "holdSeconds (accrue g a spd dt) = holdSeconds g"
  "kFrames (accrue g a spd dt) = kFrames g"
  "rom (accrue g a spd dt) = rom g"
  "count (accrue g a spd dt) = count g"
  "yList (accrue g a spd dt) = yList g"
  "yBottom (accrue g a spd dt) = yBottom g"
  by (simp_all add: accrue_def Let_def)

lemma status_fields [simp]:
  "st_saved (status g side p) = False"
  "st_side (status g side p) = side"
  "st_step (status g side p) = step g"
  "st_progress (status g side p) = max 0 (min 1 p)"
  "st_countdown (status g side p) = max 0 (holdSeconds g * (1 - max 0 (min 1 p)))"
  "st_leftActive (status g side p) = Present (leftActive g)"
  "st_rightActive (status g side p) = Present (rightActive g)"
  "st_leftSaved (status g side p) = Present (leftSaved g)"
  "st_rightSaved (status g side p) = Present (rightSaved g)"
  by (simp_all add: status_def Let_def)

lemma update_reached:
  "reached g lmo mir now = Some (h, side) \<Longrightarrow> update g lmo mir now = completion h side"
  by (auto simp: reached_def update_def settle_def Let_def vOK_def split: option.splits if_splits)

lemma update_unreached:
  assumes "reached g lmo mir now = None"
  shows "\<not> st_saved (snd (update g lmo mir now))"
    and "step (fst (update g lmo mir now)) = step g"
    and "leftSaved (fst (update g lmo mir now)) = leftSaved g"
    and "rightSaved (fst (update g lmo mir now)) = rightSaved g"
    and "holdSeconds (fst (update g lmo mir now)) = holdSeconds g"
    and "hold (fst (update g lmo mir now)) = hold g \<or> hold (fst (update g lmo mir now)) = 0"
  using assms
  by (auto simp: reached_def update_def settle_def Let_def vOK_def split: option.splits if_splits)

lemma reached_facts:
  assumes "reached g lmo mir now = Some (h, side)"
  shows "side = step g" and "step h = step g" and "leftSaved h = leftSaved g"
    and "rightSaved h = rightSaved g" and "holdSeconds h = holdSeconds g"
    and "candidate h = (if side = StepLeft then leftActive h else rightActive h)"
    and "candidate h \<noteq> None"
  using assms by (auto simp: reached_def Let_def split: option.splits if_splits)

subsection \<open>Evaluating the example frames\<close>

lemma reached_tracked:
  assumes "lm 15 = Some p15" and "lm 16 = Some p16" and "\<not> (needsHips g \<and> \<not> hipsOK g lm)"
    and "vOK g (Some p15)" and "vOK g (Some p16)"
  shows "reached g (Some lm) mir now =
     (case (if step g = StepLeft
            then leftActive (track (g\<lparr>rom := (rom g)\<lparr>neutralSamples := neutralSamples (rom g) @ [hipSample lm]\<rparr>\<rparr>)
                   (nrm mir p15) (nrm mir p16) now)
            else rightActive (track (g\<lparr>rom := (rom g)\<lparr>neutralSamples := neutralSamples (rom g) @ [hipSample lm]\<rparr>\<rparr>)
                   (nrm mir p15) (nrm mir p16) now)) of
        None \<Rightarrow> None
      | Some a \<Rightarrow>
          Some (accrue (track (g\<lparr>rom := (rom g)\<lparr>neutralSamples := neutralSamples (rom g) @ [hipSample lm]\<rparr>\<rparr>)
                   (nrm mir p15) (nrm mir p16) now) a
                  (if step g = StepLeft then speed (sL g) (nrm mir p15) (frameDt g now)
                   else speed (sR g) (nrm mir p16) (frameDt g now)) (frameDt g now), step g))"
  using assms by (auto simp: reached_def Let_def frameDt_def vOK_def split: option.splits)

lemma held_fields [simp]:
  "holdSeconds (held k h t ns) = 5" "hold (held k h t ns) = h" "kOn (held k h t ns) = k"
  "step (held k h t ns) = StepLeft" "candidate (held k h t ns) = Some 1"
  "leftSaved (held k h t ns) = None" "rightSaved (held k h t ns) = None"
  "leftActive (held k h t ns) = Some 1" "rightActive (held k h t ns) = Some 1"
  "kFrames (held k h t ns) = 6" "neutralSamples (rom (held k h t ns)) = ns"
  "maxSpeedPerSec (held k h t ns) = 3/5" "needsHips (held k h t ns)" "minVis (held k h t ns) = 11/20"
  "lastTs (held k h t ns) = Some t" "sL (held k h t ns) = Some (seen (9/50) (17/20))"
  "sR (held k h t ns) = Some (seen (41/50) (17/20))"
  by (simp_all add: held_def create_def defaults_def)

lemma held_sample:
  "(held k h t ns)\<lparr>rom := (rom (held k h t ns))\<lparr>neutralSamples := ns'\<rparr>\<rparr> = held k h t ns'"
  by (simp add: held_def create_def defaults_def)

lemma held_accrue:
  "(held k h t ns)\<lparr>candidate := Some (Suc 0), kOn := k', hold := h'\<rparr> = held k' h' t ns"
  by (simp add: held_def create_def defaults_def)

lemma onRung1_frame:
  "onRung1 15 = Some (seen (41/50) (17/20))" "onRung1 16 = Some (seen (9/50) (17/20))"
  "hipSample onRung1 = 3/5" "nrm True (seen (41/50) (17/20)) = seen (9/50) (17/20)"
  "nrm True (seen (9/50) (17/20)) = seen (41/50) (17/20)"
  "visOr0 (Some (seen a b)) = 9/10" "visOr0 (onRung1 23) = 9/10" "visOr0 (onRung1 24) = 9/10"
  by (simp_all add: onRung1_def body_def seen_def hipSample_def clamp01_def nrm_def visOr0_def)

lemma rest_speed: "speed (Some (seen a b)) (seen a b) dt = 0" "speed None w dt = 0"
  by (simp_all add: speed_def distV2_def)

lemma create_fields [simp]:
  "step (create c) = StepLeft" "sL (create c) = None" "sR (create c) = None"
  "lastTs (create c) = None" "needsHips (create c) = needsHips c" "minVis (create c) = minVis c"
  "leftSaved (create c) = None" "rightSaved (create c) = None" "hold (create c) = 0"
  "kOn (create c) = 0" "candidate (create c) = None" "holdSeconds (create c) = holdSeconds c"
  "count (create c) = count c" "neutralSamples (rom (create c)) = []"
  "leftActive (create c) = None" "rightActive (create c) = None"
  "maxRungL (create c) = None" "maxRungR (create c) = None" "yBottom (create c) = yBottom c"
  "minYLeft (create c) = 1" "minYRight (create c) = 1"
  by (simp_all add: create_def)

lemma defaults_fields [simp]:
  "needsHips defaults" "minVis defaults = 11/20" "holdSeconds defaults = 5" "count defaults = 8"
  "yBottom defaults = 17/20"
  by (simp_all add: defaults_def)

lemma track_first:
  "track ((create defaults)\<lparr>rom := r\<rparr>) (seen (9/50) (17/20)) (seen (41/50) (17/20)) now
   = (held 0 0 now [])\<lparr>candidate := None, rom := r\<rparr>"
  apply (simp add: track_def held_def create_def defaults_def seen_def ema_def orElse_def Let_def)
  apply (simp add: hitIndex_def hitStep_def rungY_def upt_rec nearestRung_def nearStep_def real_sqrt_divide)
  done

lemma track_held:
  "track (held k h t ns) (seen (9/50) (17/20)) (seen (41/50) (17/20)) now = held k h now ns"
  apply (simp add: track_def held_def create_def defaults_def seen_def ema_def orElse_def Let_def)
  apply (simp add: hitIndex_def hitStep_def rungY_def upt_rec nearestRung_def nearStep_def real_sqrt_divide)
  done

lemma held_reached:
  "reached (held k h t ns) (Some onRung1) True now =
    Some (held (Suc k) (if 5 \<le> k then h + frameDt (held k h t ns) now else h) now (ns @ [3/5]), StepLeft)"
proof -
  have "reached (held k h t ns) (Some onRung1) True now =
      Some (accrue (held k h now (ns @ [3/5])) 1 0 (frameDt (held k h t ns) now), StepLeft)"
    by (subst reached_tracked[OF onRung1_frame(1) onRung1_frame(2)])
       (simp_all add: hipsOK_def vOK_def onRung1_frame held_sample track_held rest_speed)
  then show ?thesis by (auto simp: accrue_def Let_def held_def create_def defaults_def)
qed

lemma held_dt: "t \<noteq> 0 \<Longrightarrow> frameDt (held k h t ns) now = (now - t) / 1000"
  by (simp add: frameDt_def)

lemma held_update:
  "update (held k h t ns) (Some onRung1) True now =
     completion (held (Suc k) (if 5 \<le> k then h + frameDt (held k h t ns) now else h) now (ns @ [3/5])) StepLeft"
  by (rule update_reached[OF held_reached])

lemma held_frame:
  assumes "t \<noteq> 0" and "(if 5 \<le> k then h + (now - t) / 1000 else h) < 5"
  shows "fst (update (held k h t ns) (Some onRung1) True now) =
    held (Suc k) (if 5 \<le> k then h + (now - t) / 1000 else h) now (ns @ [3/5])"
proof (cases "5 \<le> k")
  case True
  with assms have "h + (now - t) / 1000 < 5" by simp
  with True assms(1) show ?thesis by (simp add: held_update completion_def held_dt)
next
  case False
  with assms have "h < 5" by simp
  with False show ?thesis by (simp add: held_update completion_def)
qed

lemma first_reached:
  "reached (create defaults) (Some onRung1) True now = Some (held 1 0 now [3/5], StepLeft)"
proof -
  have "reached (create defaults) (Some onRung1) True now =
      Some (accrue ((held 0 0 now [])\<lparr>candidate := None,
              rom := (rom (create defaults))\<lparr>neutralSamples := [3/5]\<rparr>\<rparr>) 1 0 0, StepLeft)"
    by (subst reached_tracked[OF onRung1_frame(1) onRung1_frame(2)])
       (simp_all add: hipsOK_def vOK_def onRung1_frame track_first rest_speed frameDt_def)
  then show ?thesis by (auto simp: accrue_def Let_def held_def create_def defaults_def)
qed

lemma first_frame: "fst (update (create defaults) (Some onRung1) True now) = held 1 0 now [3/5]"
  by (simp add: update_reached[OF first_reached] completion_def)

lemma updates_Cons: "updates g ((lm, mir, now) # ticks) = updates (fst (update g lm mir now)) ticks"
  by (simp add: updates_def)

lemma six_frames:
  "updates (create defaults) sixTicks = held 6 (1/10) 1500 [3/5, 3/5, 3/5, 3/5, 3/5, 3/5]"
  by (simp add: updates_def sixTicks_def first_frame held_frame eval_nat_numeral)

section \<open>The hit test and the nearest rung\<close>

lemma rungY_cong: "yList g' = yList g \<Longrightarrow> rungY g' = rungY g"
  by (rule ext) (simp add: rungY_def)

lemma hitStep_cong:
  assumes "yList g' = yList g"
  shows "hitStep g' = hitStep g"
  by (simp add: fun_eq_iff hitStep_def rungY_cong[OF assms])

lemma hitIndex_cong:
  assumes "count g' = count g" and "yList g' = yList g" and "hitRadius g' = hitRadius g"
  shows "hitIndex g' = hitIndex g"
  by (auto simp: fun_eq_iff hitIndex_def hitStep_cong[OF assms(2)] assms(1,3) split: prod.splits option.splits)

lemma nearStep_cong:
  assumes "yList g' = yList g"
  shows "nearStep g' = nearStep g"
  by (simp add: fun_eq_iff nearStep_def rungY_cong[OF assms])

lemma nearestRung_cong:
  assumes "count g' = count g" and "yList g' = yList g"
  shows "nearestRung g' = nearestRung g"
  by (simp add: fun_eq_iff nearestRung_def nearStep_cong[OF assms(2)] assms(1))

lemma foldl_upt_Suc: "foldl f a [0..<Suc n] = f (foldl f a [0..<n]) n"
  by simp

text \<open>The loop of \<^verbatim>\<open>_hitIndex\<close> after \<open>n\<close> rungs: nothing found while every rung so far has
  no y; otherwise the best rung is one of them and no rung so far is nearer.\<close>

lemma hit_fold:
  "case foldl (hitStep g x y laneX) (None, None) [0..<n] of
     (best, None) \<Rightarrow> best = None \<and> (\<forall>i<n. rungY g i = None)
   | (best, Some d) \<Rightarrow>
       (\<exists>b yb. best = Some b \<and> b < n \<and> rungY g b = Some yb
          \<and> d = (x - laneX) * (x - laneX) + (y - yb) * (y - yb)
          \<and> (\<forall>i<n. \<forall>yi. rungY g i = Some yi \<longrightarrow>
                d \<le> (x - laneX) * (x - laneX) + (y - yi) * (y - yi)))"
proof (induction n)
  case 0
  show ?case by simp
next
  case (Suc n)
  obtain b0 d0 where acc: "foldl (hitStep g x y laneX) (None, None) [0..<n] = (b0, d0)"
    by (cases "foldl (hitStep g x y laneX) (None, None) [0..<n]")
  have IH: "case d0 of
      None \<Rightarrow> b0 = None \<and> (\<forall>i<n. rungY g i = None)
    | Some d \<Rightarrow>
       (\<exists>b yb. b0 = Some b \<and> b < n \<and> rungY g b = Some yb
          \<and> d = (x - laneX) * (x - laneX) + (y - yb) * (y - yb)
          \<and> (\<forall>i<n. \<forall>yi. rungY g i = Some yi \<longrightarrow>
                d \<le> (x - laneX) * (x - laneX) + (y - yi) * (y - yi)))"
    using Suc.IH unfolding acc by (cases d0) auto
  have step: "foldl (hitStep g x y laneX) (None, None) [0..<Suc n] = hitStep g x y laneX (b0, d0) n"
    unfolding foldl_upt_Suc acc ..
  show ?case
  proof (cases "rungY g n")
    case None
    have "hitStep g x y laneX (b0, d0) n = (b0, d0)" by (simp add: hitStep_def None)
    with IH None show ?thesis unfolding step
      by (auto simp: less_Suc_eq split: option.splits)
  next
    case (Some yy)
    let ?d2 = "(x - laneX) * (x - laneX) + (y - yy) * (y - yy)"
    show ?thesis
    proof (cases d0)
      case None
      have "hitStep g x y laneX (b0, d0) n = (Some n, Some ?d2)"
        by (simp add: hitStep_def Some None Let_def)
      with IH None Some show ?thesis unfolding step
        by (auto simp: less_Suc_eq)
    next
      case d: (Some d)
      show ?thesis
      proof (cases "?d2 < d")
        case True
        have "hitStep g x y laneX (b0, d0) n = (Some n, Some ?d2)"
          by (simp add: hitStep_def Some d True Let_def)
        moreover have "?d2 \<le> (x - laneX) * (x - laneX) + (y - yi) * (y - yi)"
          if "i < Suc n" "rungY g i = Some yi" for i yi
        proof (cases "i = n")
          case True
          with that Some show ?thesis by simp
        next
          case False
          with that have "i < n" by simp
          with IH d that(2) have "d \<le> (x - laneX) * (x - laneX) + (y - yi) * (y - yi)" by auto
          with \<open>?d2 < d\<close> show ?thesis by simp
        qed
        ultimately show ?thesis unfolding step using Some by auto
      next
        case False
        have "hitStep g x y laneX (b0, d0) n = (b0, d0)"
          by (simp add: hitStep_def Some d False Let_def)
        moreover from IH d obtain b yb where b: "b0 = Some b" "b < n" "rungY g b = Some yb"
          "d = (x - laneX) * (x - laneX) + (y - yb) * (y - yb)"
          "\<forall>i<n. \<forall>yi. rungY g i = Some yi \<longrightarrow> d \<le> (x - laneX) * (x - laneX) + (y - yi) * (y - yi)"
          by auto
        moreover have "d \<le> (x - laneX) * (x - laneX) + (y - yi) * (y - yi)"
          if "i < Suc n" "rungY g i = Some yi" for i yi
        proof (cases "i = n")
          case True
          with that Some False show ?thesis by simp
        next
          case False
          with that have "i < n" by simp
          with b(5) that(2) show ?thesis by blast
        qed
        ultimately show ?thesis unfolding step using d by auto
      qed
    qed
  qed
qed

lemma hitIndex_Some:
  assumes "hitIndex g x y laneX = Some k"
  shows "1 \<le> k \<and> k \<le> count g \<and>
    (\<exists>yk. rungY g (k - 1) = Some yk
       \<and> sqrt ((x - laneX) * (x - laneX) + (y - yk) * (y - yk)) \<le> hitRadius g
       \<and> (\<forall>i yi. i < count g \<longrightarrow> rungY g i = Some yi \<longrightarrow> \<bar>y - yk\<bar> \<le> \<bar>y - yi\<bar>))"
proof -
  obtain best bestD2 where acc: "foldl (hitStep g x y laneX) (None, None) [0..<count g] = (best, bestD2)"
    by (cases "foldl (hitStep g x y laneX) (None, None) [0..<count g]")
  from assms acc obtain d where d: "bestD2 = Some d" and r: "sqrt d \<le> hitRadius g"
    and k: "k = (case best of Some b \<Rightarrow> b + 1 | None \<Rightarrow> 1)"
    by (auto simp: hitIndex_def split: option.splits if_splits)
  from hit_fold[where g=g and x=x and y=y and laneX=laneX and n="count g"] acc d obtain b yb where
    b: "best = Some b" "b < count g" "rungY g b = Some yb"
       "d = (x - laneX) * (x - laneX) + (y - yb) * (y - yb)"
       "\<forall>i yi. i < count g \<longrightarrow> rungY g i = Some yi \<longrightarrow>
            d \<le> (x - laneX) * (x - laneX) + (y - yi) * (y - yi)"
    by auto
  have near: "\<bar>y - yb\<bar> \<le> \<bar>y - yi\<bar>" if "i < count g" "rungY g i = Some yi" for i yi
  proof -
    from b(5) that have "d \<le> (x - laneX) * (x - laneX) + (y - yi) * (y - yi)" by blast
    then have "(y - yb)\<^sup>2 \<le> (y - yi)\<^sup>2" by (simp add: b(4) power2_eq_square)
    then show ?thesis by (simp add: abs_le_square_iff)
  qed
  from k b r near show ?thesis by auto
qed



lemma near_fold:
  "1 \<le> fst (foldl (nearStep g y) (1, None) [0..<n]) \<and>
   fst (foldl (nearStep g y) (1, None) [0..<n]) \<le> max 1 n"
  by (induction n) (auto simp: nearStep_def Let_def split: option.splits)

lemma nearestRung_range: "1 \<le> nearestRung g y \<and> nearestRung g y \<le> max 1 (count g)"
  unfolding nearestRung_def by (rule near_fold)

lemma track_active:
  "leftActive (track g wL wR now) =
     hitIndex g (px (orElse (ema (sL g) (Some wL) 0.35) wL)) (py (orElse (ema (sL g) (Some wL) 0.35) wL)) (leftX g)"
  "rightActive (track g wL wR now) =
     hitIndex g (px (orElse (ema (sR g) (Some wR) 0.35) wR)) (py (orElse (ema (sR g) (Some wR) 0.35) wR)) (rightX g)"
proof -
  have l: "hitIndex (g\<lparr>lastTs := a, sL := b, sR := c\<rparr>) = hitIndex g" for a b c
    by (rule hitIndex_cong) simp_all
  have r: "hitIndex (g\<lparr>lastTs := a, sL := b, sR := c, leftActive := d\<rparr>) = hitIndex g" for a b c d
    by (rule hitIndex_cong) simp_all
  show "leftActive (track g wL wR now) =
     hitIndex g (px (orElse (ema (sL g) (Some wL) 0.35) wL)) (py (orElse (ema (sL g) (Some wL) 0.35) wL)) (leftX g)"
    by (simp add: track_def Let_def l)
  show "rightActive (track g wL wR now) =
     hitIndex g (px (orElse (ema (sR g) (Some wR) 0.35) wR)) (py (orElse (ema (sR g) (Some wR) 0.35) wR)) (rightX g)"
    by (simp add: track_def Let_def r)
qed

lemma track_smoothed:
  "sL (track g wL wR now) = ema (sL g) (Some wL) 0.35"
  "sR (track g wL wR now) = ema (sR g) (Some wR) 0.35"
  by (simp_all add: track_def Let_def)

section \<open>Saving a rung and advancing the step\<close>

lemma complete_saved:
  "st_saved (snd (completion h side)) \<longleftrightarrow> holdSeconds h \<le> hold h"
  by (simp add: completion_def Let_def)

lemma complete_step:
  "step (fst (completion h side)) =
     (if holdSeconds h \<le> hold h then (if side = StepLeft then StepRight else StepDone) else step h)"
  by (simp add: completion_def Let_def)

lemma update_step_rank: "stepRank (step g) \<le> stepRank (step (fst (update g lmo mir now)))"
proof (cases "reached g lmo mir now")
  case None
  then show ?thesis by (simp add: update_unreached(2))
next
  case (Some p)
  obtain h side where p: "p = (h, side)" by (cases p)
  note r = Some[unfolded p]
  have "side = step g" "step h = step g" using reached_facts[OF r] by simp_all
  then show ?thesis
    by (cases "step g") (simp_all add: update_reached[OF r] complete_step)
qed

lemma updates_step_rank: "stepRank (step g) \<le> stepRank (step (updates g ticks))"
proof (induction ticks arbitrary: g)
  case Nil
  show ?case by (simp add: updates_def)
next
  case (Cons tick ticks)
  obtain lm mir now where t: "tick = (lm, mir, now)" by (cases tick)
  have "stepRank (step g) \<le> stepRank (step (fst (update g lm mir now)))"
    by (rule update_step_rank)
  also have "\<dots> \<le> stepRank (step (updates (fst (update g lm mir now)) ticks))"
    by (rule Cons.IH)
  finally show ?case by (simp add: t updates_Cons)
qed

text \<open>
  C1. On a grid with a positive \<^verbatim>\<open>holdSeconds\<close> that the held time has not yet reached (as after
  \<^verbatim>\<open>create\<close> and after every update), an update saves a rung exactly when the accumulated hold
  time of the frame reaches \<^verbatim>\<open>holdSeconds\<close>. Saving while the step is left stores the rung the
  left hand is on as \<^verbatim>\<open>leftSaved\<close> and moves the step to right; saving otherwise stores the right
  hand's rung as \<^verbatim>\<open>rightSaved\<close> and moves the step to done. A frame that does not save changes
  neither the step nor a saved rung, and over any sequence of updates the step never moves
  backwards.
\<close>

theorem update_saves_when_held:
  assumes "0 < holdSeconds g" and "hold g < holdSeconds g"
  shows "(st_saved (snd (update g lmo mir now)) \<longleftrightarrow> holdSeconds g \<le> holdTime g lmo mir now)
    \<and> (st_saved (snd (update g lmo mir now)) \<and> step g = StepLeft \<longrightarrow>
          step (fst (update g lmo mir now)) = StepRight
        \<and> leftSaved (fst (update g lmo mir now)) = leftActive (fst (update g lmo mir now))
        \<and> leftSaved (fst (update g lmo mir now)) \<noteq> None
        \<and> rightSaved (fst (update g lmo mir now)) = rightSaved g)
    \<and> (st_saved (snd (update g lmo mir now)) \<and> step g \<noteq> StepLeft \<longrightarrow>
          step (fst (update g lmo mir now)) = StepDone
        \<and> rightSaved (fst (update g lmo mir now)) = rightActive (fst (update g lmo mir now))
        \<and> rightSaved (fst (update g lmo mir now)) \<noteq> None
        \<and> leftSaved (fst (update g lmo mir now)) = leftSaved g)
    \<and> (\<not> st_saved (snd (update g lmo mir now)) \<longrightarrow>
          step (fst (update g lmo mir now)) = step g
        \<and> leftSaved (fst (update g lmo mir now)) = leftSaved g
        \<and> rightSaved (fst (update g lmo mir now)) = rightSaved g)
    \<and> holdSeconds (fst (update g lmo mir now)) = holdSeconds g
    \<and> hold (fst (update g lmo mir now)) < holdSeconds (fst (update g lmo mir now))
    \<and> (\<forall>ticks. stepRank (step g) \<le> stepRank (step (updates g ticks)))"
proof (cases "reached g lmo mir now")
  case None
  note u = update_unreached[OF None]
  have "holdTime g lmo mir now < holdSeconds g"
    using u(6) assms by (auto simp: holdTime_def None)
  moreover have "hold (fst (update g lmo mir now)) < holdSeconds g"
    using u(6) assms by auto
  ultimately show ?thesis using u updates_step_rank by simp
next
  case (Some p)
  obtain h side where p: "p = (h, side)" by (cases p)
  note r = Some[unfolded p]
  note f = reached_facts[OF r]
  have ht: "holdTime g lmo mir now = hold h" by (simp add: holdTime_def r)
  have c: "candidate h \<noteq> None" by (rule f(7))
  show ?thesis
  proof (cases "holdSeconds h \<le> hold h")
    case True
    then show ?thesis
      using f assms updates_step_rank
      by (auto simp add: update_reached[OF r] ht completion_def Let_def split: if_splits)
  next
    case False
    then show ?thesis
      using f assms updates_step_rank
      by (simp add: update_reached[OF r] ht completion_def Let_def)
  qed
qed

text \<open>After six steady frames on the lowest rung, a seventh frame five seconds later brings the
  held time to 5.1 s: the rung is saved for the left hand and the step moves to right.\<close>

theorem update_saves_when_held_witness:
  "0 < holdSeconds (updates (create defaults) sixTicks)
   \<and> hold (updates (create defaults) sixTicks) < holdSeconds (updates (create defaults) sixTicks)
   \<and> holdTime (updates (create defaults) sixTicks) (Some onRung1) True 6500 = 51 / 10
   \<and> st_saved (snd (update (updates (create defaults) sixTicks) (Some onRung1) True 6500))
   \<and> step (fst (update (updates (create defaults) sixTicks) (Some onRung1) True 6500)) = StepRight
   \<and> leftSaved (fst (update (updates (create defaults) sixTicks) (Some onRung1) True 6500)) = Some 1"
proof -
  let ?g = "updates (create defaults) sixTicks"
  have h: "0 < holdSeconds ?g" "hold ?g < holdSeconds ?g" "step ?g = StepLeft" "holdSeconds ?g = 5"
    by (simp_all add: six_frames)
  have t: "holdTime ?g (Some onRung1) True 6500 = 51 / 10"
    by (simp add: six_frames holdTime_def held_reached held_dt)
  have a: "leftActive (fst (update ?g (Some onRung1) True 6500)) = Some 1"
    by (simp add: six_frames held_update held_dt completion_def)
  show ?thesis
    using update_saves_when_held[OF h(1,2), of "Some onRung1" True 6500] h t a by simp
qed

section \<open>Steadiness and the hold timer\<close>


















section \<open>The early exits of the update\<close>

lemma hips_exit_resets:
  assumes "lm 15 = Some p15" and "lm 16 = Some p16" and "needsHips g" and "\<not> hipsOK g lm"
  shows "fst (update g (Some lm) mir now) = g\<lparr>candidate := None, kOn := 0, hold := 0\<rparr>"
    and "st_progress (snd (update g (Some lm) mir now)) = 0"
  using assms by (simp_all add: update_def Let_def)

lemma hand_visibility_exit_resets:
  assumes "lm 15 = Some p15" and "lm 16 = Some p16" and "\<not> (needsHips g \<and> \<not> hipsOK g lm)"
    and "\<not> vOK g (Some p15) \<or> \<not> vOK g (Some p16)"
  shows "kOn (fst (update g (Some lm) mir now)) = 0"
    and "hold (fst (update g (Some lm) mir now)) = 0"
    and "step (fst (update g (Some lm) mir now)) = step g"
    and "leftSaved (fst (update g (Some lm) mir now)) = leftSaved g"
    and "rightSaved (fst (update g (Some lm) mir now)) = rightSaved g"
    and "st_progress (snd (update g (Some lm) mir now)) = 0"
  using assms by (auto simp: update_def Let_def vOK_def)

text \<open>
  C3 asks every early exit to reset the steady-frame counter and the hold accumulator. The
  exits for invisible hips and for an invisible hand do (the two lemmas above). The exit for
  an absent hand landmark returns the grid as it is: the counter and the accumulator keep
  their values, and only the reported progress is zero.
\<close>

theorem absent_hand_exit_keeps_grid:
  assumes "lm 15 = None \<or> lm 16 = None"
  shows "fst (update g (Some lm) mir now) = g
    \<and> st_progress (snd (update g (Some lm) mir now)) = 0"
  using assms by (auto simp: update_def split: option.splits)

text \<open>After six steady frames the counter is 6 and 0.1 s are held; a frame without the left
  wrist leaves both where they are.\<close>

theorem absent_hand_exit_keeps_grid_witness:
  "noLeftWrist 15 = None
   \<and> kOn (updates (create defaults) sixTicks) = 6
   \<and> hold (updates (create defaults) sixTicks) = 1 / 10
   \<and> kOn (fst (update (updates (create defaults) sixTicks) (Some noLeftWrist) True 1600)) = 6
   \<and> hold (fst (update (updates (create defaults) sixTicks) (Some noLeftWrist) True 1600)) = 1 / 10
   \<and> st_progress (snd (update (updates (create defaults) sixTicks) (Some noLeftWrist) True 1600)) = 0"
proof -
  have n: "noLeftWrist 15 = None \<or> noLeftWrist 16 = None" by (simp add: noLeftWrist_def)
  show ?thesis
    using absent_hand_exit_keeps_grid[OF n, of "updates (create defaults) sixTicks" True 1600]
    by (simp add: six_frames noLeftWrist_def)
qed

section \<open>The neutral-height pool\<close>

lemma update_tracked:
  assumes "lm 15 = Some p15" and "lm 16 = Some p16" and "\<not> (needsHips g \<and> \<not> hipsOK g lm)"
    and "vOK g (Some p15)" and "vOK g (Some p16)"
  shows "update g (Some lm) mir now =
     settle (track (g\<lparr>rom := (rom g)\<lparr>neutralSamples := neutralSamples (rom g) @ [hipSample lm]\<rparr>\<rparr>)
               (nrm mir p15) (nrm mir p16) now)
       (speed (sL g) (nrm mir p15) (frameDt g now)) (speed (sR g) (nrm mir p16) (frameDt g now))
       (frameDt g now)
       (py (orElse (ema (sL g) (Some (nrm mir p15)) 0.35) (nrm mir p15)))
       (py (orElse (ema (sR g) (Some (nrm mir p16)) 0.35) (nrm mir p16)))"
  using assms by (auto simp: update_def Let_def frameDt_def vOK_def track_smoothed)

lemma complete_rom: "rom (fst (completion h side)) = rom h"
  by (simp add: completion_def Let_def)

lemma settle_samples:
  "neutralSamples (rom (fst (settle G spdL spdR dt yL yR))) =
     neutralSamples (rom G) @
       (if (if step G = StepLeft then leftActive G else rightActive G) = None
        then [if step G = StepLeft then yL else yR] else [])"
  by (simp add: settle_def Let_def complete_rom split: option.splits)

lemma reached_None_iff:
  assumes "lm 15 = Some p15" and "lm 16 = Some p16" and "\<not> (needsHips g \<and> \<not> hipsOK g lm)"
    and "vOK g (Some p15)" and "vOK g (Some p16)"
  shows "reached g (Some lm) mir now = None \<longleftrightarrow>
     (if step g = StepLeft
      then leftActive (track (g\<lparr>rom := (rom g)\<lparr>neutralSamples := neutralSamples (rom g) @ [hipSample lm]\<rparr>\<rparr>)
             (nrm mir p15) (nrm mir p16) now)
      else rightActive (track (g\<lparr>rom := (rom g)\<lparr>neutralSamples := neutralSamples (rom g) @ [hipSample lm]\<rparr>\<rparr>)
             (nrm mir p15) (nrm mir p16) now)) = None"
  unfolding reached_tracked[OF assms] by (simp split: option.splits)

lemma update_samples:
  assumes "lm 15 = Some p15" and "lm 16 = Some p16" and "\<not> (needsHips g \<and> \<not> hipsOK g lm)"
  shows "neutralSamples (rom (fst (update g (Some lm) mir now))) =
     neutralSamples (rom g) @ hipSample lm #
       (if vOK g (Some p15) \<and> vOK g (Some p16) \<and> reached g (Some lm) mir now = None
        then [handY g p15 p16 mir] else [])"
proof (cases "vOK g (Some p15) \<and> vOK g (Some p16)")
  case False
  then have "reached g (Some lm) mir now = None"
    using assms by (auto simp: reached_def)
  with False assms show ?thesis
    by (auto simp: update_def Let_def vOK_def)
next
  case True
  then have v: "vOK g (Some p15)" "vOK g (Some p16)" by simp_all
  show ?thesis
    unfolding update_tracked[OF assms v] settle_samples reached_None_iff[OF assms v]
    by (simp add: handY_def True)
qed

lemma update_no_samples:
  assumes "lmo = None \<or> (\<exists>lm. lmo = Some lm \<and> (lm 15 = None \<or> lm 16 = None \<or> (needsHips g \<and> \<not> hipsOK g lm)))"
  shows "neutralSamples (rom (fst (update g lmo mir now))) = neutralSamples (rom g)"
  using assms by (auto simp: update_def Let_def split: option.splits)

lemma foldl_plus: "foldl (\<lambda>a b. a + b) a xs = a + sum_list xs" for a :: real
  by (induction xs arbitrary: a) simp_all

lemma neutralOf_mean:
  "neutralOf g = (if neutralSamples (rom g) = [] then yBottom g
                  else sum_list (neutralSamples (rom g)) / real (length (neutralSamples (rom g))))"
  by (simp add: neutralOf_def foldl_plus)

text \<open>
  C4 (amended). A frame stopped by the hand-presence test or the hip-visibility test adds no
  sample. Every other frame adds the larger of the two hip y-values, each clamped into [0,1]
  (0.5 for a hip that is absent). Such a frame adds a second sample, the smoothed y of the
  hand being calibrated, when both hands are visible and that hand is on no rung. The
  \<^verbatim>\<open>neutralY\<close> of the record is the arithmetic mean of the pool, and \<^verbatim>\<open>yBottom\<close> when the pool
  is empty.
\<close>

theorem neutral_pool:
  "((lmo = None \<or> (\<exists>lm. lmo = Some lm \<and> (lm 15 = None \<or> lm 16 = None \<or> (needsHips g \<and> \<not> hipsOK g lm))))
      \<longrightarrow> neutralSamples (rom (fst (update g lmo mir now))) = neutralSamples (rom g))
   \<and> (\<forall>lm p15 p16. lmo = Some lm \<and> lm 15 = Some p15 \<and> lm 16 = Some p16
        \<and> \<not> (needsHips g \<and> \<not> hipsOK g lm) \<longrightarrow>
        neutralSamples (rom (fst (update g lmo mir now))) =
          neutralSamples (rom g) @ hipSample lm #
            (if vOK g (Some p15) \<and> vOK g (Some p16) \<and> reached g lmo mir now = None
             then [handY g p15 p16 mir] else []))
   \<and> rom_neutralY (p_rom (saveCalibration g t)) =
        (if neutralSamples (rom g) = [] then yBottom g
         else sum_list (neutralSamples (rom g)) / real (length (neutralSamples (rom g))))"
  using update_no_samples[of lmo g mir now] update_samples[of _ _ _ g mir now]
  by (auto simp: saveCalibration_def neutralOf_mean)

lemma between_frame:
  "betweenLanes 15 = Some (seen (1/2) (17/20))" "betweenLanes 16 = Some (seen (1/2) (17/20))"
  "hipSample betweenLanes = 3/5" "nrm True (seen (1/2) (17/20)) = seen (1/2) (17/20)"
  "visOr0 (betweenLanes 23) = 9/10" "visOr0 (betweenLanes 24) = 9/10"
  by (simp_all add: betweenLanes_def body_def seen_def hipSample_def clamp01_def nrm_def visOr0_def)

lemma between_miss: "hitIndex (create defaults) (1/2) (17/20) (9/50) = None"
  by (simp add: hitIndex_def hitStep_def rungY_def upt_rec create_def defaults_def real_sqrt_divide)

lemma between_reached: "reached (create defaults) (Some betweenLanes) True now = None"
proof -
  have pre: "\<not> (needsHips (create defaults) \<and> \<not> hipsOK (create defaults) betweenLanes)"
    "vOK (create defaults) (Some (seen (1/2) (17/20)))"
    by (simp_all add: hipsOK_def vOK_def between_frame onRung1_frame)
  have h: "hitIndex ((create defaults)\<lparr>rom := r\<rparr>) = hitIndex (create defaults)" for r
    by (rule hitIndex_cong) simp_all
  have lx: "leftX (create defaults) = 9/50" by (simp add: create_def defaults_def)
  show ?thesis
    unfolding reached_None_iff[OF between_frame(1) between_frame(2) pre(1) pre(2) pre(2)]
    by (simp add: track_active h ema_def orElse_def seen_def nrm_def clamp01_def lx between_miss)
qed

lemma between_samples:
  "neutralSamples (rom (fst (update (create defaults) (Some betweenLanes) True now))) = [3/5, 17/20]"
proof -
  have pre: "\<not> (needsHips (create defaults) \<and> \<not> hipsOK (create defaults) betweenLanes)"
    by (simp add: hipsOK_def between_frame)
  show ?thesis
    unfolding update_samples[OF between_frame(1) between_frame(2) pre]
    by (simp add: between_reached between_frame(3) vOK_def visOr0_def handY_def ema_def orElse_def seen_def
        nrm_def clamp01_def)
qed

text \<open>On the default ladder a first frame with the hands on rung 1 adds the hip sample 0.6
  only; the grid of \<^verbatim>\<open>create\<close> has an empty pool and falls back to \<^verbatim>\<open>yBottom\<close>.\<close>

theorem neutral_pool_witness:
  "neutralSamples (rom (fst (update (create defaults) (Some onRung1) True 1000))) = [3 / 5]
   \<and> rom_neutralY (p_rom (saveCalibration (create defaults) 0)) = 17 / 20
   \<and> rom_neutralY (p_rom (saveCalibration (fst (update (create defaults) (Some onRung1) True 1000)) 0)) = 3 / 5"
proof -
  have pre: "onRung1 15 = Some (seen (41/50) (17/20))" "onRung1 16 = Some (seen (9/50) (17/20))"
    "\<not> (needsHips (create defaults) \<and> \<not> hipsOK (create defaults) onRung1)"
    "reached (create defaults) (Some onRung1) True 1000 \<noteq> None"
    by (simp_all add: onRung1_frame hipsOK_def first_reached)
  have a: "neutralSamples (rom (fst (update (create defaults) (Some onRung1) True 1000))) = [3 / 5]"
    using neutral_pool[of "Some onRung1" "create defaults" True 1000 0] pre
    by (simp add: onRung1_frame)
  show ?thesis
    using neutral_pool[of "Some onRung1" "create defaults" True 1000 0]
      neutral_pool[of None "fst (update (create defaults) (Some onRung1) True 1000)" True 1000 0] a
    by simp
qed

text \<open>
  C4 as stated fails: one frame with the hands between the lanes puts two samples into the
  pool, the hip sample 0.6 and the hand's y 0.85, and the \<^verbatim>\<open>neutralY\<close> written afterwards is
  their mean 0.725, not a mean of hip heights.
\<close>

theorem miss_adds_two_samples_counterexample:
  "hipSample betweenLanes = 3 / 5
   \<and> neutralSamples (rom (create defaults)) = []
   \<and> neutralSamples (rom (fst (update (create defaults) (Some betweenLanes) True 1000))) = [3 / 5, 17 / 20]
   \<and> rom_neutralY (p_rom (saveCalibration (fst (update (create defaults) (Some betweenLanes) True 1000)) 0))
       = 29 / 40"
  by (simp add: between_frame between_samples saveCalibration_def neutralOf_mean)

section \<open>The active rung of a frame\<close>

















section \<open>The status object\<close>

lemma update_unreached_status:
  assumes "reached g lmo mir now = None"
  shows "snd (update g lmo mir now) = status (fst (update g lmo mir now)) (step g) 0"
  using assms
  by (auto simp: reached_def update_def settle_def Let_def vOK_def split: option.splits if_splits)

lemma status_countdown:
  "0 \<le> holdSeconds g \<Longrightarrow>
     st_countdown (status g side p) = holdSeconds g * (1 - st_progress (status g side p))"
  by (simp add: mult_nonneg_nonneg)

text \<open>
  C8 asks every status, also that of the frame that saves a rung, to carry the active and
  saved rungs of both hands. A status that \<^verbatim>\<open>_status\<close> builds has them, with the progress
  in [0,1] and the countdown \<open>holdSeconds (1 - progress)\<close> for a non-negative \<^verbatim>\<open>holdSeconds\<close>.
  The status of a saving frame is the six-property object literal: it has side, saved,
  progress 1, countdown 0 and step, and lacks \<^verbatim>\<open>leftActive\<close>, \<^verbatim>\<open>rightActive\<close>, \<^verbatim>\<open>leftSaved\<close>
  and \<^verbatim>\<open>rightSaved\<close>.
\<close>

theorem status_of_update:
  "(\<not> st_saved (snd (update g lmo mir now)) \<longrightarrow>
        st_side (snd (update g lmo mir now)) = step g
      \<and> st_step (snd (update g lmo mir now)) = step (fst (update g lmo mir now))
      \<and> st_leftActive (snd (update g lmo mir now)) = Present (leftActive (fst (update g lmo mir now)))
      \<and> st_rightActive (snd (update g lmo mir now)) = Present (rightActive (fst (update g lmo mir now)))
      \<and> st_leftSaved (snd (update g lmo mir now)) = Present (leftSaved (fst (update g lmo mir now)))
      \<and> st_rightSaved (snd (update g lmo mir now)) = Present (rightSaved (fst (update g lmo mir now)))
      \<and> 0 \<le> st_progress (snd (update g lmo mir now))
      \<and> st_progress (snd (update g lmo mir now)) \<le> 1
      \<and> (0 \<le> holdSeconds g \<longrightarrow>
           st_countdown (snd (update g lmo mir now)) =
             holdSeconds g * (1 - st_progress (snd (update g lmo mir now)))))
   \<and> (st_saved (snd (update g lmo mir now)) \<longrightarrow>
        st_side (snd (update g lmo mir now)) = step g
      \<and> st_step (snd (update g lmo mir now)) = step (fst (update g lmo mir now))
      \<and> st_progress (snd (update g lmo mir now)) = 1
      \<and> st_countdown (snd (update g lmo mir now)) = 0
      \<and> st_leftActive (snd (update g lmo mir now)) = Absent
      \<and> st_rightActive (snd (update g lmo mir now)) = Absent
      \<and> st_leftSaved (snd (update g lmo mir now)) = Absent
      \<and> st_rightSaved (snd (update g lmo mir now)) = Absent)"
proof (cases "reached g lmo mir now")
  case None
  have hs: "holdSeconds (fst (update g lmo mir now)) = holdSeconds g"
    by (rule update_unreached(5)[OF None])
  show ?thesis
    using update_unreached(1)[OF None] hs
    by (simp add: update_unreached_status[OF None] mult_nonneg_nonneg)
next
  case (Some p)
  obtain h side where p: "p = (h, side)" by (cases p)
  note r = Some[unfolded p]
  note f = reached_facts[OF r]
  show ?thesis
  proof (cases "holdSeconds h \<le> hold h")
    case True
    then show ?thesis using f by (simp add: update_reached[OF r] completion_def Let_def)
  next
    case False
    then show ?thesis using f
      by (simp add: update_reached[OF r] completion_def Let_def mult_nonneg_nonneg)
  qed
qed

text \<open>The seventh frame of the example saves rung 1 for the left hand; its status has no
  \<^verbatim>\<open>leftActive\<close>, although the grid has the left hand on rung 1.\<close>

theorem status_of_update_witness:
  "st_saved (snd (update (updates (create defaults) sixTicks) (Some onRung1) True 6500))
   \<and> st_leftActive (snd (update (updates (create defaults) sixTicks) (Some onRung1) True 6500)) = Absent
   \<and> st_rightActive (snd (update (updates (create defaults) sixTicks) (Some onRung1) True 6500)) = Absent
   \<and> st_leftSaved (snd (update (updates (create defaults) sixTicks) (Some onRung1) True 6500)) = Absent
   \<and> st_rightSaved (snd (update (updates (create defaults) sixTicks) (Some onRung1) True 6500)) = Absent
   \<and> leftActive (fst (update (updates (create defaults) sixTicks) (Some onRung1) True 6500)) = Some 1
   \<and> leftSaved (fst (update (updates (create defaults) sixTicks) (Some onRung1) True 6500)) = Some 1"
proof -
  have s: "st_saved (snd (update (updates (create defaults) sixTicks) (Some onRung1) True 6500))"
    and a: "leftActive (fst (update (updates (create defaults) sixTicks) (Some onRung1) True 6500)) = Some 1"
    and b: "leftSaved (fst (update (updates (create defaults) sixTicks) (Some onRung1) True 6500)) = Some 1"
    by (simp_all add: six_frames held_update held_dt completion_def)
  show ?thesis
    using status_of_update[of "updates (create defaults) sixTicks" "Some onRung1" True 6500] s a b
    by simp
qed

section \<open>Rung indices stay on the ladder\<close>

lemma rungOK_hitIndex: "rungOK (count g) (hitIndex g x y laneX)"
proof (cases "hitIndex g x y laneX")
  case None
  then show ?thesis by (simp add: rungOK_def)
next
  case (Some k)
  from hitIndex_Some[OF Some] show ?thesis by (simp add: rungOK_def Some)
qed

lemma rungOK_nearestRung: "1 \<le> count g \<Longrightarrow> rungOK (count g) (Some (nearestRung g y))"
  using nearestRung_range[of g y] by (simp add: rungOK_def)

lemma track_maxRung:
  "maxRungL (track g wL wR now) =
     (if py (orElse (ema (sL g) (Some wL) 0.35) wL) < minYLeft g
      then Some (nearestRung g (py (orElse (ema (sL g) (Some wL) 0.35) wL))) else maxRungL g)"
  "maxRungR (track g wL wR now) =
     (if py (orElse (ema (sR g) (Some wR) 0.35) wR) < minYRight g
      then Some (nearestRung g (py (orElse (ema (sR g) (Some wR) 0.35) wR))) else maxRungR g)"
proof -
  have l: "nearestRung (g\<lparr>lastTs := a, sL := b, sR := c, leftActive := d, rightActive := e\<rparr>) = nearestRung g"
    for a b c d e
    by (rule nearestRung_cong) simp_all
  have r: "nearestRung (g\<lparr>lastTs := a, sL := b, sR := c, leftActive := d, rightActive := e,
      minYLeft := f, maxRungL := h\<rparr>) = nearestRung g" for a b c d e f h
    by (rule nearestRung_cong) simp_all
  show "maxRungL (track g wL wR now) =
     (if py (orElse (ema (sL g) (Some wL) 0.35) wL) < minYLeft g
      then Some (nearestRung g (py (orElse (ema (sL g) (Some wL) 0.35) wL))) else maxRungL g)"
    by (simp add: track_def Let_def l)
  show "maxRungR (track g wL wR now) =
     (if py (orElse (ema (sR g) (Some wR) 0.35) wR) < minYRight g
      then Some (nearestRung g (py (orElse (ema (sR g) (Some wR) 0.35) wR))) else maxRungR g)"
    by (simp add: track_def Let_def l r)
qed

text \<open>The invariant of the induction also keeps the candidate on the ladder, since a save
  copies the candidate.\<close>

lemma track_inv:
  assumes "rungsInRange g" and "rungOK (count g) (candidate g)" and "1 \<le> count g"
  shows "rungsInRange (track g wL wR now) \<and> rungOK (count g) (candidate (track g wL wR now))"
  using assms
  by (simp add: rungsInRange_def track_active track_maxRung rungOK_hitIndex rungOK_nearestRung)

lemma settle_inv:
  assumes "rungsInRange G" and "rungOK (count G) (candidate G)"
  shows "rungsInRange (fst (settle G spdL spdR dt yL yR))
    \<and> rungOK (count G) (candidate (fst (settle G spdL spdR dt yL yR)))
    \<and> count (fst (settle G spdL spdR dt yL yR)) = count G"
proof (cases "if step G = StepLeft then leftActive G else rightActive G")
  case None
  with assms show ?thesis
    by (simp add: settle_def Let_def rungsInRange_def rungOK_def)
next
  case (Some a)
  have a: "rungOK (count G) (Some a)"
    using assms(1) Some by (auto simp: rungsInRange_def split: if_splits)
  have "fst (settle G spdL spdR dt yL yR) =
      fst (completion (accrue G a (if step G = StepLeft then spdL else spdR) dt) (step G))"
    using Some by (simp add: settle_def Let_def)
  then show ?thesis
    using assms a
    by (simp add: completion_def Let_def rungsInRange_def) (simp add: rungOK_def)
qed

lemma update_inv:
  assumes "rungsInRange g" and "rungOK (count g) (candidate g)" and "1 \<le> count g"
  shows "rungsInRange (fst (update g lmo mir now))
    \<and> rungOK (count g) (candidate (fst (update g lmo mir now)))
    \<and> count (fst (update g lmo mir now)) = count g"
proof (cases lmo)
  case None
  with assms show ?thesis by (simp add: update_def)
next
  case (Some lm)
  show ?thesis
  proof (cases "lm 15 = None \<or> lm 16 = None")
    case True
    with assms Some show ?thesis by (auto simp: update_def split: option.splits)
  next
    case False
    then obtain p15 p16 where p: "lm 15 = Some p15" "lm 16 = Some p16" by auto
    show ?thesis
    proof (cases "needsHips g \<and> \<not> hipsOK g lm")
      case True
      with assms Some p show ?thesis
        by (simp add: update_def Let_def rungsInRange_def) (simp add: rungOK_def)
    next
      case hips: False
      show ?thesis
      proof (cases "vOK g (Some p15) \<and> vOK g (Some p16)")
        case False
        with assms Some p hips show ?thesis
          by (auto simp: update_def Let_def rungsInRange_def vOK_def)
      next
        case True
        then have v: "vOK g (Some p15)" "vOK g (Some p16)" by simp_all
        let ?g1 = "g\<lparr>rom := (rom g)\<lparr>neutralSamples := neutralSamples (rom g) @ [hipSample lm]\<rparr>\<rparr>"
        have g1: "rungsInRange ?g1" "rungOK (count ?g1) (candidate ?g1)" "1 \<le> count ?g1"
          using assms by (simp_all add: rungsInRange_def)
        from track_inv[OF g1] have t: "rungsInRange (track ?g1 (nrm mir p15) (nrm mir p16) now)"
          "rungOK (count (track ?g1 (nrm mir p15) (nrm mir p16) now))
             (candidate (track ?g1 (nrm mir p15) (nrm mir p16) now))"
          by simp_all
        from settle_inv[OF t] show ?thesis
          unfolding Some update_tracked[OF p hips v] by simp
      qed
    qed
  qed
qed

lemma updates_inv:
  assumes "rungsInRange g" and "rungOK (count g) (candidate g)" and "1 \<le> count g"
  shows "rungsInRange (updates g ticks)"
  using assms
proof (induction ticks arbitrary: g)
  case Nil
  then show ?case by (simp add: updates_def)
next
  case (Cons tick ticks)
  obtain lm mir now where t: "tick = (lm, mir, now)" by (cases tick)
  from update_inv[OF Cons.prems, of lm mir now]
  have "rungsInRange (updates (fst (update g lm mir now)) ticks)"
    using Cons.prems(3) by (intro Cons.IH) simp_all
  then show ?case by (simp add: t updates_Cons)
qed

text \<open>
  C10. On a ladder with at least one rung, after any sequence of updates from \<^verbatim>\<open>create\<close>,
  each of \<^verbatim>\<open>leftActive\<close>, \<^verbatim>\<open>rightActive\<close>, \<^verbatim>\<open>leftSaved\<close>, \<^verbatim>\<open>rightSaved\<close> and the two
  maximum-reach rungs is \<^verbatim>\<open>null\<close> or an integer from 1 to \<^verbatim>\<open>count\<close>.
\<close>

theorem rungs_stay_on_ladder:
  assumes "1 \<le> count c"
  shows "rungsInRange (updates (create c) ticks)"
proof (rule updates_inv)
  show "rungsInRange (create c)" by (simp add: rungsInRange_def rungOK_def)
  show "rungOK (count (create c)) (candidate (create c))" by (simp add: rungOK_def)
  show "1 \<le> count (create c)" using assms by simp
qed

text \<open>The default ladder has eight rungs; after the six example frames both hands are on
  rung 1, which is also their maximum reach.\<close>

theorem rungs_stay_on_ladder_witness:
  "1 \<le> count defaults
   \<and> rungsInRange (updates (create defaults) sixTicks)
   \<and> count (updates (create defaults) sixTicks) = 8
   \<and> leftActive (updates (create defaults) sixTicks) = Some 1
   \<and> maxRungL (updates (create defaults) sixTicks) = Some 1"
proof -
  have c: "1 \<le> count defaults" by simp
  have "count (updates (create defaults) sixTicks) = 8"
    "leftActive (updates (create defaults) sixTicks) = Some 1"
    "maxRungL (updates (create defaults) sixTicks) = Some 1"
    unfolding six_frames by (simp_all add: held_def create_def defaults_def)
  with rungs_stay_on_ladder[OF c, of sixTicks] c show ?thesis by simp
qed

text \<open>The bound on the rungs is needed for the maximum-reach rung only: \<^verbatim>\<open>_nearestRung\<close>
  starts from rung 1, so on a ladder without rungs the first tracked frame records 1.\<close>

lemma no_rungs_max_reach:
  "maxRungL (fst (update (create (defaults\<lparr>count := 0\<rparr>)) (Some onRung1) True 1000)) = Some 1"
proof -
  let ?g = "create (defaults\<lparr>count := 0\<rparr>)"
  have pre: "\<not> (needsHips ?g \<and> \<not> hipsOK ?g onRung1)" "vOK ?g (Some (seen (41/50) (17/20)))"
    "vOK ?g (Some (seen (9/50) (17/20)))"
    by (simp_all add: hipsOK_def vOK_def onRung1_frame defaults_def)
  have m: "maxRungL (fst (settle G spdL spdR dt yL yR)) = maxRungL G" for G spdL spdR dt yL yR
    by (simp add: settle_def Let_def completion_def split: option.splits)
  have n: "nearestRung (?g\<lparr>rom := r\<rparr>) y = 1" for r y
    by (simp add: nearestRung_def)
  show ?thesis
    unfolding update_tracked[OF onRung1_frame(1) onRung1_frame(2) pre] m track_maxRung
    by (simp add: n ema_def orElse_def seen_def nrm_def clamp01_def)
qed

section \<open>The records that are written\<close>

lemma update_savedFitsStep:
  assumes "savedFitsStep g"
  shows "savedFitsStep (fst (update g lmo mir now))"
proof (cases "reached g lmo mir now")
  case None
  with assms show ?thesis
    by (simp add: savedFitsStep_def update_unreached(2-4)[OF None] split: step.splits)
next
  case (Some p)
  obtain h side where p: "p = (h, side)" by (cases p)
  note r = Some[unfolded p]
  note f = reached_facts[OF r]
  from f(7) obtain c where c: "candidate h = Some c" by auto
  show ?thesis
    using assms f(1-4) c
    by (cases "step g") (simp_all add: update_reached[OF r] completion_def Let_def savedFitsStep_def)
qed

lemma create_savedFitsStep: "savedFitsStep (create c)"
  by (simp add: savedFitsStep_def)

lemma saveCalibration_both:
  "savedFitsStep g \<Longrightarrow> step g = StepDone \<Longrightarrow> bothIndices (saveCalibration g t)"
  by (simp add: savedFitsStep_def bothIndices_def saveCalibration_def)

lemma mainLoop_pageOK:
  assumes "pageOK s"
  shows "pageOK (mainLoop s latestLm now wall)"
proof (cases "running s")
  case False
  with assms show ?thesis by (simp add: mainLoop_def)
next
  case True
  show ?thesis
  proof (cases latestLm)
    case None
    with assms show ?thesis by (simp add: mainLoop_def)
  next
    case lm: (Some lm)
    show ?thesis
    proof (cases "theGrid s")
      case None
      with assms lm show ?thesis by (simp add: mainLoop_def)
    next
      case (Some g)
      from assms Some have g: "savedFitsStep g" and st: "list_all bothIndices (stored s)"
        by (simp_all add: pageOK_def)
      note u = update_savedFitsStep[OF g, of "Some lm" True now]
      show ?thesis
        using u st saveCalibration_both[OF u]
        by (simp add: mainLoop_def True lm Some Let_def pageOK_def)
    qed
  qed
qed

lemma handle_pageOK: "pageOK s \<Longrightarrow> pageOK (handle s ev)"
  by (cases ev) (simp_all add: mainLoop_pageOK, simp_all add: pageOK_def create_savedFitsStep)

lemma handleAll_pageOK: "pageOK s \<Longrightarrow> pageOK (handleAll s evs)"
  unfolding handleAll_def by (induction evs arbitrary: s) (simp_all add: handle_pageOK)

text \<open>
  C9. In every run of the page, whatever the events (start, reset, frames), each record that
  \<^verbatim>\<open>saveCalibration\<close> has written has both \<^verbatim>\<open>leftIndex\<close> and \<^verbatim>\<open>rightIndex\<close> set: the record is
  built only when the step is done, and by then both rungs are saved. (A write that the
  storage refuses writes nothing, so the records in storage are among these.)
\<close>

theorem written_records_complete:
  "list_all bothIndices (stored (handleAll initialPage evs))"
proof -
  have "pageOK initialPage" by (simp add: pageOK_def initialPage_def)
  from handleAll_pageOK[OF this] show ?thesis by (simp add: pageOK_def)
qed

subsection \<open>A whole session on the default ladder\<close>

lemma held_resting: "held k h t ns = resting StepLeft None None (Some 1) k h t ns"
  by (simp add: resting_def held_def create_def defaults_def)

lemma resting_fields [simp]:
  "step (resting st ls rs cand k h t ns) = st" "needsHips (resting st ls rs cand k h t ns)"
  "minVis (resting st ls rs cand k h t ns) = 11/20" "lastTs (resting st ls rs cand k h t ns) = Some t"
  "sL (resting st ls rs cand k h t ns) = Some (seen (9/50) (17/20))"
  "sR (resting st ls rs cand k h t ns) = Some (seen (41/50) (17/20))"
  "neutralSamples (rom (resting st ls rs cand k h t ns)) = ns"
  "leftActive (resting st ls rs cand k h t ns) = Some 1"
  "rightActive (resting st ls rs cand k h t ns) = Some 1"
  "leftSaved (resting st ls rs cand k h t ns) = ls" "rightSaved (resting st ls rs cand k h t ns) = rs"
  by (simp_all add: resting_def held_def create_def defaults_def)

lemma resting_sample:
  "(resting st ls rs cand k h t ns)\<lparr>rom := (rom (resting st ls rs cand k h t ns))\<lparr>neutralSamples := ns'\<rparr>\<rparr>
     = resting st ls rs cand k h t ns'"
  by (simp add: resting_def held_def create_def defaults_def)

lemma track_resting:
  "track (resting st ls rs cand k h t ns) (seen (9/50) (17/20)) (seen (41/50) (17/20)) now
     = resting st ls rs cand k h now ns"
  apply (simp add: track_def resting_def held_def create_def defaults_def seen_def ema_def orElse_def Let_def)
  apply (simp add: hitIndex_def hitStep_def rungY_def upt_rec nearestRung_def nearStep_def real_sqrt_divide)
  done

lemma resting_reached:
  "reached (resting st ls rs cand k h t ns) (Some onRung1) True now =
     Some (accrue (resting st ls rs cand k h now (ns @ [3/5])) 1 0
             (frameDt (resting st ls rs cand k h t ns) now), st)"
  by (subst reached_tracked[OF onRung1_frame(1) onRung1_frame(2)])
     (simp_all add: hipsOK_def vOK_def onRung1_frame resting_sample track_resting rest_speed)

lemma resting_accrue:
  "accrue (resting st ls rs cand k h t ns) (Suc 0) 0 dt =
     resting st ls rs (Some 1) (Suc (if cand = Some 1 then k else 0))
       (if 5 \<le> (if cand = Some 1 then k else 0) then (if cand = Some 1 then h else 0) + dt
        else (if cand = Some 1 then h else 0)) t ns"
  by (simp add: accrue_def Let_def resting_def held_def create_def defaults_def)

lemma resting_complete:
  "completion (resting st ls rs (Some (Suc 0)) k h t ns) st =
     (if 5 \<le> h
      then (if st = StepLeft then resting StepRight (Some 1) rs None 0 0 t ns
            else resting StepDone ls (Some 1) None 0 0 t ns,
            \<lparr>st_ok = True, st_side = st, st_saved = True, st_progress = 1, st_countdown = 0,
             st_step = (if st = StepLeft then StepRight else StepDone),
             st_leftActive = Absent, st_rightActive = Absent,
             st_leftSaved = Absent, st_rightSaved = Absent\<rparr>)
      else (resting st ls rs (Some 1) k h t ns, status (resting st ls rs (Some 1) k h t ns) st (h / 5)))"
  by (simp add: completion_def Let_def resting_def held_def create_def defaults_def)

lemma resting_update:
  assumes "t \<noteq> 0"
  shows "fst (update (resting st ls rs cand k h t ns) (Some onRung1) True now) =
     fst (completion (resting st ls rs (Some 1) (Suc (if cand = Some 1 then k else 0))
            (if 5 \<le> (if cand = Some 1 then k else 0)
             then (if cand = Some 1 then h else 0) + (now - t) / 1000
             else (if cand = Some 1 then h else 0)) now (ns @ [3/5])) st)"
  using assms
  by (simp add: update_reached[OF resting_reached] resting_accrue frameDt_def)

lemma session_grid:
  "theGrid (handleAll initialPage fullSession) =
     Some (resting StepDone (Some 1) (Some 1) None 0 0 12100
            [3/5, 3/5, 3/5, 3/5, 3/5, 3/5, 3/5, 3/5, 3/5, 3/5, 3/5, 3/5, 3/5, 3/5])"
  "map p_leftIndex (stored (handleAll initialPage fullSession)) = [Some 1]"
  "map p_rightIndex (stored (handleAll initialPage fullSession)) = [Some 1]"
  by (simp_all add: handleAll_def fullSession_def initialPage_def mainLoop_def Let_def
      first_frame held_resting resting_update resting_complete saveCalibration_def)

text \<open>The example session writes one record, with rung 1 for each hand.\<close>

theorem written_records_complete_witness:
  "list_all bothIndices (stored (handleAll initialPage fullSession))
   \<and> map p_leftIndex (stored (handleAll initialPage fullSession)) = [Some 1]
   \<and> map p_rightIndex (stored (handleAll initialPage fullSession)) = [Some 1]"
  using written_records_complete[of fullSession] session_grid(2,3) by simp

section \<open>The phase up of the shoulder-abduction feedback\<close>

lemma say_fields [simp]:
  "upCounter (fst (say fb m ty now)) = upCounter fb" "phase (fst (say fb m ty now)) = phase fb"
  "targetY (fst (say fb m ty now)) = targetY fb"
  "requireUpFrames (fst (say fb m ty now)) = requireUpFrames fb"
  "snd (say fb m ty now) = Some (m, ty)"
  by (simp_all add: say_def showFeedback_def)

lemma heights_up:
  assumes "phase fb = Up"
  shows "heights fb Lw Rw now =
     (if \<not> py Lw \<le> targetY fb + 0.02 \<and> \<not> py Rw \<le> targetY fb + 0.02
      then ((fst (say fb ''Raise both arms higher'' ''correction'' now))\<lparr>upCounter := 0\<rparr>,
            Some (''Raise both arms higher'', ''correction''))
      else if \<not> py Lw \<le> targetY fb + 0.02
      then ((fst (say fb ''Raise your left arm higher'' ''correction'' now))\<lparr>upCounter := 0\<rparr>,
            Some (''Raise your left arm higher'', ''correction''))
      else if \<not> py Rw \<le> targetY fb + 0.02
      then ((fst (say fb ''Raise your right arm higher'' ''correction'' now))\<lparr>upCounter := 0\<rparr>,
            Some (''Raise your right arm higher'', ''correction''))
      else if requireUpFrames fb \<le> real (upCounter fb + 1)
      then say (fb\<lparr>upCounter := upCounter fb + 1\<rparr>) niceHeight ''success'' now
      else (fb\<lparr>upCounter := upCounter fb + 1\<rparr>, None))"
  using assms by (simp add: heights_def Let_def say_def)

lemma provide_checked:
  assumes "heightChecked lm" and "lm 15 = Some Lw" and "lm 16 = Some Rw"
  shows "provideShoulderAbductionFeedback fb (Some lm) now = heights fb Lw Rw now"
  using assms by (simp add: provideShoulderAbductionFeedback_def heightChecked_def Let_def)

lemma checked_wrists: "heightChecked lm \<Longrightarrow> \<exists>Lw Rw. lm 15 = Some Lw \<and> lm 16 = Some Rw"
  by (auto simp: heightChecked_def isVisible_def split: option.splits)

lemma niceHeight_other [simp]:
  "niceHeight \<noteq> ''Keep both shoulders visible''" "niceHeight \<noteq> ''Keep your shoulders level''"
  "niceHeight \<noteq> ''Straighten your left elbow''" "niceHeight \<noteq> ''Straighten your right elbow''"
  "niceHeight \<noteq> ''Keep your hands visible''"
  by (simp_all add: niceHeight_def)

lemma provide_unchecked:
  assumes "\<not> heightChecked lm"
  shows "upCounter (fst (provideShoulderAbductionFeedback fb (Some lm) now)) = upCounter fb"
    and "phase (fst (provideShoulderAbductionFeedback fb (Some lm) now)) = phase fb"
    and "targetY (fst (provideShoulderAbductionFeedback fb (Some lm) now)) = targetY fb"
    and "requireUpFrames (fst (provideShoulderAbductionFeedback fb (Some lm) now)) = requireUpFrames fb"
    and "snd (provideShoulderAbductionFeedback fb (Some lm) now) \<noteq> Some (niceHeight, ''success'')"
  using assms
  by (auto simp: provideShoulderAbductionFeedback_def heightChecked_def Let_def)

lemma provide_up_counter:
  assumes "phase fb = Up"
  shows "upCounter (fst (provideShoulderAbductionFeedback fb (Some lm) now)) =
     (if heightChecked lm then (if wristsUp fb lm then upCounter fb + 1 else 0) else upCounter fb)"
    and "phase (fst (provideShoulderAbductionFeedback fb (Some lm) now)) = Up"
    and "targetY (fst (provideShoulderAbductionFeedback fb (Some lm) now)) = targetY fb"
    and "requireUpFrames (fst (provideShoulderAbductionFeedback fb (Some lm) now)) = requireUpFrames fb"
proof -
  show "upCounter (fst (provideShoulderAbductionFeedback fb (Some lm) now)) =
     (if heightChecked lm then (if wristsUp fb lm then upCounter fb + 1 else 0) else upCounter fb)"
  proof (cases "heightChecked lm")
    case False
    then show ?thesis by (simp add: provide_unchecked(1))
  next
    case True
    from checked_wrists[OF True] obtain Lw Rw where w: "lm 15 = Some Lw" "lm 16 = Some Rw" by blast
    show ?thesis
      by (simp add: provide_checked[OF True w] heights_up[OF assms] wristsUp_def w True)
  qed
  show "phase (fst (provideShoulderAbductionFeedback fb (Some lm) now)) = Up"
  proof (cases "heightChecked lm")
    case False
    then show ?thesis by (simp add: provide_unchecked(2) assms)
  next
    case True
    from checked_wrists[OF True] obtain Lw Rw where w: "lm 15 = Some Lw" "lm 16 = Some Rw" by blast
    show ?thesis
      by (simp add: provide_checked[OF True w] heights_up[OF assms] assms)
  qed
  show "targetY (fst (provideShoulderAbductionFeedback fb (Some lm) now)) = targetY fb"
  proof (cases "heightChecked lm")
    case False
    then show ?thesis by (simp add: provide_unchecked(3))
  next
    case True
    from checked_wrists[OF True] obtain Lw Rw where w: "lm 15 = Some Lw" "lm 16 = Some Rw" by blast
    show ?thesis
      by (simp add: provide_checked[OF True w] heights_up[OF assms])
  qed
  show "requireUpFrames (fst (provideShoulderAbductionFeedback fb (Some lm) now)) = requireUpFrames fb"
  proof (cases "heightChecked lm")
    case False
    then show ?thesis by (simp add: provide_unchecked(4))
  next
    case True
    from checked_wrists[OF True] obtain Lw Rw where w: "lm 15 = Some Lw" "lm 16 = Some Rw" by blast
    show ?thesis
      by (simp add: provide_checked[OF True w] heights_up[OF assms])
  qed
qed

lemma feedbackRun_snoc:
  "feedbackRun fb (frames @ [(lm, now)]) =
     fst (provideShoulderAbductionFeedback (feedbackRun fb frames) (Some lm) now)"
  by (simp add: feedbackRun_def)

lemma upStreak_snoc:
  "upStreak fb (frames @ [lm]) =
     (if heightChecked lm then (if wristsUp fb lm then upStreak fb frames + 1 else 0)
      else upStreak fb frames)"
  by (simp add: upStreak_def)

lemma wristsUp_cong: "targetY fb' = targetY fb \<Longrightarrow> wristsUp fb' lm = wristsUp fb lm"
  by (simp add: wristsUp_def split: option.splits)

lemma run_up:
  assumes "phase fb = Up" and "upCounter fb = 0"
  shows "phase (feedbackRun fb frames) = Up \<and> targetY (feedbackRun fb frames) = targetY fb
    \<and> requireUpFrames (feedbackRun fb frames) = requireUpFrames fb
    \<and> upCounter (feedbackRun fb frames) = upStreak fb (map fst frames)"
proof (induction frames rule: rev_induct)
  case Nil
  show ?case using assms by (simp add: feedbackRun_def upStreak_def)
next
  case (snoc x frames)
  obtain lm now where x: "x = (lm, now)" by (cases x)
  from snoc have p: "phase (feedbackRun fb frames) = Up"
    and t: "targetY (feedbackRun fb frames) = targetY fb"
    and q: "requireUpFrames (feedbackRun fb frames) = requireUpFrames fb"
    and c: "upCounter (feedbackRun fb frames) = upStreak fb (map fst frames)" by simp_all
  show ?case
    unfolding x feedbackRun_snoc
    by (simp add: provide_up_counter[OF p] t q c upStreak_snoc wristsUp_cong[OF t])
qed

lemma niceHeight_raise [simp]:
  "niceHeight \<noteq> ''Raise both arms higher''" "niceHeight \<noteq> ''Raise your left arm higher''"
  "niceHeight \<noteq> ''Raise your right arm higher''"
  by (simp_all add: niceHeight_def)

lemma success_needs_streak:
  assumes "phase fb = Up"
    and "snd (provideShoulderAbductionFeedback fb (Some lm) now) = Some (niceHeight, ''success'')"
  shows "heightChecked lm \<and> wristsUp fb lm \<and> requireUpFrames fb \<le> real (upCounter fb + 1)"
proof (cases "heightChecked lm")
  case False
  with provide_unchecked(5)[OF False, of fb now] assms(2) show ?thesis by simp
next
  case True
  from checked_wrists[OF True] obtain Lw Rw where w: "lm 15 = Some Lw" "lm 16 = Some Rw" by blast
  from assms(2) show ?thesis
    by (simp add: provide_checked[OF True w] heights_up[OF assms(1)] wristsUp_def w True
        split: if_splits)
qed

lemma setPhase_up: "phase (setPhase fb ''up'') = Up" "upCounter (setPhase fb ''up'') = 0"
  "targetY (setPhase fb ''up'') = targetY fb" "requireUpFrames (setPhase fb ''up'') = requireUpFrames fb"
  by (simp_all add: setPhase_def)

text \<open>
  C7 (amended). In the phase up, on a frame that comes to the height check (shoulders visible
  and level, no visible elbow bent, wrists visible): a wrist with \<open>y > targetY + 0.02\<close> sets
  the up-counter to 0 and issues the correction that names the faulty side, or both; with both
  wrists at or above the target the counter grows by 1, and the success message is issued
  exactly when the counter has reached \<^verbatim>\<open>requireUpFrames\<close>. A frame stopped by an earlier
  check leaves the counter as it is and issues no success message. So from a counter of 0
  (as \<^verbatim>\<open>setPhase\<close> leaves it) the counter is the number of height-checked frames since the
  last height-checked frame with a wrist below the target, and a success message needs
  \<^verbatim>\<open>requireUpFrames\<close> of them. A message is issued when \<^verbatim>\<open>showFeedback\<close> is called with
  it; whether it is rendered is decided there (element present, 500 ms since the last one).
\<close>

theorem up_phase_feedback:
  assumes "phase fb = Up"
  shows "(\<forall>Lw Rw. heightChecked lm \<and> lm 15 = Some Lw \<and> lm 16 = Some Rw \<longrightarrow>
        (targetY fb + 0.02 < py Lw \<and> targetY fb + 0.02 < py Rw \<longrightarrow>
            upCounter (fst (provideShoulderAbductionFeedback fb (Some lm) now)) = 0
          \<and> snd (provideShoulderAbductionFeedback fb (Some lm) now) =
              Some (''Raise both arms higher'', ''correction''))
      \<and> (targetY fb + 0.02 < py Lw \<and> py Rw \<le> targetY fb + 0.02 \<longrightarrow>
            upCounter (fst (provideShoulderAbductionFeedback fb (Some lm) now)) = 0
          \<and> snd (provideShoulderAbductionFeedback fb (Some lm) now) =
              Some (''Raise your left arm higher'', ''correction''))
      \<and> (py Lw \<le> targetY fb + 0.02 \<and> targetY fb + 0.02 < py Rw \<longrightarrow>
            upCounter (fst (provideShoulderAbductionFeedback fb (Some lm) now)) = 0
          \<and> snd (provideShoulderAbductionFeedback fb (Some lm) now) =
              Some (''Raise your right arm higher'', ''correction''))
      \<and> (py Lw \<le> targetY fb + 0.02 \<and> py Rw \<le> targetY fb + 0.02 \<longrightarrow>
            upCounter (fst (provideShoulderAbductionFeedback fb (Some lm) now)) = upCounter fb + 1
          \<and> snd (provideShoulderAbductionFeedback fb (Some lm) now) =
              (if requireUpFrames fb \<le> real (upCounter fb + 1)
               then Some (niceHeight, ''success'') else None)))
    \<and> (\<not> heightChecked lm \<longrightarrow>
          upCounter (fst (provideShoulderAbductionFeedback fb (Some lm) now)) = upCounter fb
        \<and> snd (provideShoulderAbductionFeedback fb (Some lm) now) \<noteq> Some (niceHeight, ''success''))
    \<and> (upCounter fb = 0 \<longrightarrow>
          (\<forall>frames. upCounter (feedbackRun fb frames) = upStreak fb (map fst frames)
             \<and> (snd (provideShoulderAbductionFeedback (feedbackRun fb frames) (Some lm) now)
                   = Some (niceHeight, ''success'') \<longrightarrow>
                 requireUpFrames fb \<le> real (upStreak fb (map fst frames @ [lm])))))
    \<and> phase (setPhase fb ''up'') = Up \<and> upCounter (setPhase fb ''up'') = 0"
proof (intro conjI allI impI)
  fix Lw Rw
  assume a: "heightChecked lm \<and> lm 15 = Some Lw \<and> lm 16 = Some Rw"
  then have e: "provideShoulderAbductionFeedback fb (Some lm) now = heights fb Lw Rw now"
    by (simp add: provide_checked)
  {
    assume "targetY fb + 0.02 < py Lw \<and> targetY fb + 0.02 < py Rw"
    then show "upCounter (fst (provideShoulderAbductionFeedback fb (Some lm) now)) = 0"
      and "snd (provideShoulderAbductionFeedback fb (Some lm) now) =
              Some (''Raise both arms higher'', ''correction'')"
      by (simp_all add: e heights_up[OF assms])
  }
  {
    assume "targetY fb + 0.02 < py Lw \<and> py Rw \<le> targetY fb + 0.02"
    then show "upCounter (fst (provideShoulderAbductionFeedback fb (Some lm) now)) = 0"
      and "snd (provideShoulderAbductionFeedback fb (Some lm) now) =
              Some (''Raise your left arm higher'', ''correction'')"
      by (simp_all add: e heights_up[OF assms])
  }
  {
    assume "py Lw \<le> targetY fb + 0.02 \<and> targetY fb + 0.02 < py Rw"
    then show "upCounter (fst (provideShoulderAbductionFeedback fb (Some lm) now)) = 0"
      and "snd (provideShoulderAbductionFeedback fb (Some lm) now) =
              Some (''Raise your right arm higher'', ''correction'')"
      by (simp_all add: e heights_up[OF assms])
  }
  {
    assume "py Lw \<le> targetY fb + 0.02 \<and> py Rw \<le> targetY fb + 0.02"
    then show "upCounter (fst (provideShoulderAbductionFeedback fb (Some lm) now)) = upCounter fb + 1"
      and "snd (provideShoulderAbductionFeedback fb (Some lm) now) =
              (if requireUpFrames fb \<le> real (upCounter fb + 1)
               then Some (niceHeight, ''success'') else None)"
      by (simp_all add: e heights_up[OF assms])
  }
next
  assume "\<not> heightChecked lm"
  then show "upCounter (fst (provideShoulderAbductionFeedback fb (Some lm) now)) = upCounter fb"
    and "snd (provideShoulderAbductionFeedback fb (Some lm) now) \<noteq> Some (niceHeight, ''success'')"
    by (simp_all add: provide_unchecked)
next
  fix frames
  assume z: "upCounter fb = 0"
  note r = run_up[OF assms z, of frames]
  show "upCounter (feedbackRun fb frames) = upStreak fb (map fst frames)" using r by simp
  assume s: "snd (provideShoulderAbductionFeedback (feedbackRun fb frames) (Some lm) now)
                   = Some (niceHeight, ''success'')"
  from r have p: "phase (feedbackRun fb frames) = Up" by simp
  from success_needs_streak[OF p s] r
  show "requireUpFrames fb \<le> real (upStreak fb (map fst frames @ [lm]))"
    by (simp add: upStreak_snoc wristsUp_cong[of "feedbackRun fb frames" fb])
next
  show "phase (setPhase fb ''up'') = Up" by (rule setPhase_up)
  show "upCounter (setPhase fb ''up'') = 0" by (rule setPhase_up)
qed

lemma armsUp_facts:
  "heightChecked armsUp" "armsUp 15 = Some (seen (1/5) (3/10))" "armsUp 16 = Some (seen (4/5) (3/10))"
  by (simp_all add: armsUp_def heightChecked_def isVisible_def bentElbow_def seen_def)

lemma hiddenDrop_facts:
  "\<not> heightChecked hiddenDrop" "hiddenDrop 15 = Some (seen (1/5) (9/10))"
  "hiddenDrop 16 = Some (seen (4/5) (9/10))" "hiddenDrop 11 = None"
  by (simp_all add: hiddenDrop_def heightChecked_def isVisible_def seen_def)

lemma fbUp_facts:
  "phase fbUp = Up" "upCounter fbUp = 0" "targetY fbUp = 3/5" "requireUpFrames fbUp = 5"
  by (simp_all add: fbUp_def setPhase_def newFeedback_def)

lemma wrists_example: "wristsUp fbUp armsUp" "\<not> wristsUp fbUp hiddenDrop"
  by (simp_all add: wristsUp_def armsUp_facts hiddenDrop_facts fbUp_facts seen_def)

lemma fourUp_run:
  "phase (feedbackRun fbUp fourUp) = Up" "upCounter (feedbackRun fbUp fourUp) = 4"
  "targetY (feedbackRun fbUp fourUp) = 3/5" "requireUpFrames (feedbackRun fbUp fourUp) = 5"
  using run_up[OF fbUp_facts(1,2), of fourUp]
  by (simp_all add: fourUp_def upStreak_def armsUp_facts wrists_example fbUp_facts)

text \<open>From the new object in the phase up: the first frame with the arms up issues nothing,
  the fifth issues the success message.\<close>

theorem up_phase_feedback_witness:
  "phase fbUp = Up
   \<and> snd (provideShoulderAbductionFeedback fbUp (Some armsUp) 0) = None
   \<and> upCounter (feedbackRun fbUp fourUp) = 4
   \<and> snd (provideShoulderAbductionFeedback (feedbackRun fbUp fourUp) (Some armsUp) 400)
       = Some (niceHeight, ''success'')
   \<and> upCounter (fst (provideShoulderAbductionFeedback (feedbackRun fbUp fourUp) (Some armsUp) 400)) = 5"
proof -
  have y: "py (seen (1/5) (3/10)) \<le> 3/5 + 0.02" "py (seen (4/5) (3/10)) \<le> 3/5 + 0.02"
    by (simp_all add: seen_def)
  show ?thesis
    using up_phase_feedback[OF fbUp_facts(1), of armsUp 0]
      up_phase_feedback[OF fourUp_run(1), of armsUp 400]
      armsUp_facts fbUp_facts fourUp_run y
    by simp
qed

text \<open>
  C7 as stated fails. After four frames with the arms up, a frame with both wrists below the
  target and the left shoulder not detected is stopped by the shoulder check: the counter
  stays at 4, the message is the warning about the shoulders, and the next frame with the
  arms up issues the success message, one frame after a drop.
\<close>

theorem drop_behind_hidden_shoulder_counterexample:
  "wristsUp fbUp hiddenDrop = False
   \<and> upCounter (feedbackRun fbUp fourUp) = 4
   \<and> upCounter (feedbackRun fbUp (fourUp @ [(hiddenDrop, 400)])) = 4
   \<and> snd (provideShoulderAbductionFeedback (feedbackRun fbUp fourUp) (Some hiddenDrop) 400)
       = Some (''Keep both shoulders visible'', ''warning'')
   \<and> snd (provideShoulderAbductionFeedback (feedbackRun fbUp (fourUp @ [(hiddenDrop, 400)])) (Some armsUp) 500)
       = Some (niceHeight, ''success'')"
proof -
  let ?f = "feedbackRun fbUp fourUp"
  let ?g = "feedbackRun fbUp (fourUp @ [(hiddenDrop, 400)])"
  have w: "snd (provideShoulderAbductionFeedback ?f (Some hiddenDrop) 400)
       = Some (''Keep both shoulders visible'', ''warning'')"
    by (simp add: provideShoulderAbductionFeedback_def Let_def hiddenDrop_facts isVisible_def)
  have g: "phase ?g = Up" "upCounter ?g = 4" "targetY ?g = 3/5" "requireUpFrames ?g = 5"
    unfolding feedbackRun_snoc
    by (simp_all add: provide_up_counter[OF fourUp_run(1)] hiddenDrop_facts fourUp_run)
  have s: "snd (provideShoulderAbductionFeedback ?g (Some armsUp) 500) = Some (niceHeight, ''success'')"
    by (simp add: provide_checked[OF armsUp_facts] heights_up[OF g(1)] g seen_def)
  from w g s show ?thesis by (simp add: wrists_example fourUp_run)
qed

section \<open>The level ramp of the feedback target\<close>

lemma rampT_unit: "1 \<le> L \<Longrightarrow> L \<le> N \<Longrightarrow> 0 \<le> rampT L N \<and> rampT L N \<le> 1"
  by (auto simp: rampT_def divide_le_eq_1)

lemma rampT_mono: "1 \<le> L \<Longrightarrow> L \<le> L' \<Longrightarrow> L' \<le> N \<Longrightarrow> rampT L N \<le> rampT L' N"
  by (auto simp: rampT_def divide_right_mono)

lemma levelTarget_eq:
  assumes "1 \<le> L" and "L \<le> N"
    and "neutralYOf r = Some n" and "maxReachLeftYOf r = Some a" and "maxReachRightYOf r = Some b"
  shows "levelTarget fb L N r = n + (0.15 + 0.50 * rampT L N) * (min a b - n)"
proof -
  have t: "(real L - 1) / max 1 (real N - 1) = rampT L N"
  proof (cases "N = 1")
    case True
    with assms show ?thesis by (simp add: rampT_def)
  next
    case False
    with assms have "2 \<le> N" by simp
    then have "max 1 (real N - 1) = real N - 1" by simp
    with False show ?thesis by (simp add: rampT_def)
  qed
  have u: "0 \<le> rampT L N" "rampT L N \<le> 1" using rampT_unit assms by auto
  then have c: "max 0 (min 1 (0.15 + 0.50 * rampT L N)) = 0.15 + 0.50 * rampT L N" by simp
  have lv: "max 1 (real L) = real L" "real L \<noteq> 0" "max (real L) (real N) = real N" "real N \<noteq> 0"
    using assms by simp_all
  have "levelTarget fb L N r = lerp n (min a b) (0.15 + 0.50 * ((real L - 1) / max 1 (real N - 1)))"
    using assms(3-5) lv
    by (simp add: levelTarget_def setLevel_def Let_def numberOr_def safeNum_def romField_def mult.commute)
  then show ?thesis unfolding t lerp_def c by (simp add: mult.commute)
qed

text \<open>
  C5 (amended). For a calibration with finite ROM numbers and levels \<open>1 \<le> L \<le> L' \<le> N\<close>, the
  target is \<open>neutralY + (0.15 + 0.50 t) (maxReachY - neutralY)\<close> with \<open>maxReachY\<close> the smaller of
  the two reaches and \<open>t = (L - 1) / (N - 1)\<close> (0 when \<open>N = 1\<close>); it is the 0.15 point at level 1
  and the 0.65 point at level \<open>N > 1\<close>. In the level it moves from the neutral height towards
  the reach: it does not increase when the reach lies at or above the neutral height on screen
  (\<open>maxReachY \<le> neutralY\<close>), and does not decrease when \<open>neutralY \<le> maxReachY\<close>.
\<close>

theorem targetY_ramp:
  assumes "1 \<le> L" and "L \<le> L'" and "L' \<le> N"
    and "neutralYOf r = Some n" and "maxReachLeftYOf r = Some a" and "maxReachRightYOf r = Some b"
  shows "levelTarget fb L N r = n + (0.15 + 0.50 * rampT L N) * (min a b - n)
    \<and> levelTarget fb 1 N r = n + 0.15 * (min a b - n)
    \<and> (1 < N \<longrightarrow> levelTarget fb N N r = n + 0.65 * (min a b - n))
    \<and> (min a b \<le> n \<longrightarrow> levelTarget fb L' N r \<le> levelTarget fb L N r)
    \<and> (n \<le> min a b \<longrightarrow> levelTarget fb L N r \<le> levelTarget fb L' N r)"
proof -
  have LN: "L \<le> N" "1 \<le> L'" "1 \<le> N" using assms by simp_all
  note e = levelTarget_eq[OF _ _ assms(4-6)]
  have m: "rampT L N \<le> rampT L' N" using rampT_mono assms by simp
  have f: "0.15 + 0.50 * rampT L N \<le> 0.15 + 0.50 * rampT L' N" using m by simp
  have one: "rampT 1 N = 0" by (simp add: rampT_def)
  have top: "1 < N \<Longrightarrow> rampT N N = 1" by (simp add: rampT_def)
  have dn: "min a b \<le> n \<Longrightarrow> (0.15 + 0.50 * rampT L' N) * (min a b - n) \<le> (0.15 + 0.50 * rampT L N) * (min a b - n)"
    using f by (simp add: mult_right_mono_neg)
  have up: "n \<le> min a b \<Longrightarrow> (0.15 + 0.50 * rampT L N) * (min a b - n) \<le> (0.15 + 0.50 * rampT L' N) * (min a b - n)"
    using f by (simp add: mult_right_mono)
  show ?thesis
    using e[of L N fb, OF assms(1) LN(1)] e[of L' N fb, OF LN(2) assms(3)] e[of 1 N fb] e[of N N fb] LN one top dn up
    by auto
qed

theorem targetY_ramp_witness:
  "levelTarget newFeedback 2 3 measured = 0.56 \<and> levelTarget newFeedback 1 3 measured = 0.71
   \<and> levelTarget newFeedback 3 3 measured = 0.41
   \<and> levelTarget newFeedback 3 3 measured \<le> levelTarget newFeedback 2 3 measured"
  using targetY_ramp[of 2 3 3 measured "0.8" "0.2" "0.3" newFeedback]
        targetY_ramp[of 1 1 3 measured "0.8" "0.2" "0.3" newFeedback]
  by (simp add: measured_def rampT_def)

text \<open>C5 as stated fails: with the reach above the neutral height, level 3 of 3 has a smaller
  target than level 1 of 3 (0.41 against 0.71).\<close>

theorem targetY_nondecreasing_counterexample:
  "\<not> (levelTarget newFeedback 1 3 measured \<le> levelTarget newFeedback 3 3 measured)"
  by (simp add: levelTarget_def setLevel_def Let_def numberOr_def safeNum_def romField_def lerp_def
      measured_def newFeedback_def)

end
